theory Spec2Isabelle
  imports Main "HOL-Library.Multiset" "HOL-Library.Sublist"
begin

section \<open>Security group reconciliation (pkg/cloud/services/networking/securitygroups.go)\<close>

text \<open>
  A shallow embedding of the security group service. Go structs are records, a pointer
  field is an \<open>option\<close> (\<open>None\<close> is \<open>nil\<close>), a Go \<open>(value, error)\<close> result is a pair
  whose second component is an \<open>error option\<close>, and a nil pointer dereference (a run-time
  panic) is the value \<open>None\<close> of an outer \<open>option\<close>. Go's \<open>int\<close> fields are only copied
  and compared, so they are \<open>int\<close>. Logging and event recording are left out.
\<close>

subsection \<open>Data model\<close>

text \<open>The constants of the file.\<close>

definition controlPlaneSuffix :: string where "controlPlaneSuffix = ''controlplane''"
definition workerSuffix :: string where "workerSuffix = ''worker''"
definition bastionSuffix :: string where "bastionSuffix = ''bastion''"
definition remoteGroupIDSelf :: string where "remoteGroupIDSelf = ''self''"

text \<open>
  An error value. \<open>Errorf\<close> is an error made by \<open>fmt.Errorf\<close> in this file, with its
  message; \<open>ClientError\<close> is an error returned by a call of the networking client, passed
  on unchanged.
\<close>

datatype error = Errorf string | ClientError string

record resolvedSecurityGroupRuleSpec =
  Description :: string
  Direction :: string
  EtherType :: string
  PortRangeMin :: int
  PortRangeMax :: int
  Protocol :: string
  RemoteGroupID :: string
  RemoteIPPrefix :: string

record securityGroupSpec =
  Name :: string
  Rules :: "resolvedSecurityGroupRuleSpec list"

text \<open>
  \<open>infrav1.SecurityGroupRuleStatus\<close>: \<open>ID\<close> and \<open>Direction\<close> are strings, the other seven
  fields are pointers.
\<close>

record SecurityGroupRuleStatus =
  rsID :: string
  rsDescription :: "string option"
  rsDirection :: string
  rsEtherType :: "string option"
  rsPortRangeMin :: "int option"
  rsPortRangeMax :: "int option"
  rsProtocol :: "string option"
  rsRemoteGroupID :: "string option"
  rsRemoteIPPrefix :: "string option"

record SecurityGroupStatus =
  gsID :: string
  gsName :: string
  gsRules :: "SecurityGroupRuleStatus list"

text \<open>The zero value \<open>infrav1.SecurityGroupStatus{}\<close>.\<close>

definition emptySecurityGroupStatus :: SecurityGroupStatus where
  "emptySecurityGroupStatus = \<lparr>gsID = [], gsName = [], gsRules = []\<rparr>"

text \<open>\<open>infrav1.SecurityGroupRuleSpec\<close>, a template of the all-nodes rules.\<close>

record SecurityGroupRuleSpec =
  tDescription :: "string option"
  tDirection :: string
  tEtherType :: "string option"
  tPortRangeMin :: "int option"
  tPortRangeMax :: "int option"
  tProtocol :: "string option"
  tRemoteGroupID :: "string option"
  tRemoteManagedGroups :: "string list"
  tRemoteIPPrefix :: "string option"

text \<open>The wire types of the client: \<open>rules.SecGroupRule\<close>, \<open>groups.SecGroup\<close>, \<open>rules.CreateOpts\<close>.\<close>

record SecGroupRule =
  osID :: string
  osDirection :: string
  osDescription :: string
  osEtherType :: string
  osPortRangeMin :: int
  osPortRangeMax :: int
  osProtocol :: string
  osRemoteGroupID :: string
  osRemoteIPPrefix :: string

record SecGroup =
  osgID :: string
  osgName :: string
  osgRules :: "SecGroupRule list"

record CreateOpts =
  coDescription :: string
  coDirection :: string
  coPortRangeMin :: int
  coPortRangeMax :: int
  coProtocol :: string
  coEtherType :: string
  coRemoteGroupID :: string
  coRemoteIPPrefix :: string
  coSecGroupID :: string

subsection \<open>The rule value model\<close>

text \<open>
  \<open>x == *p\<close>: the dereference of a nil pointer panics. \<open>a && b\<close> evaluates \<open>b\<close> only when
  \<open>a\<close> is true, so a panic in \<open>b\<close> happens only then.
\<close>

definition eqDeref :: "'a \<Rightarrow> 'a option \<Rightarrow> bool option" where
  "eqDeref x p = (case p of None \<Rightarrow> None | Some v \<Rightarrow> Some (x = v))"

fun andAlso :: "bool option \<Rightarrow> bool option \<Rightarrow> bool option" where
  "andAlso None b = None"
| "andAlso (Some False) b = Some False"
| "andAlso (Some True) b = b"

definition Matches :: "resolvedSecurityGroupRuleSpec \<Rightarrow> SecurityGroupRuleStatus \<Rightarrow> bool option" where
  "Matches r other =
     andAlso (eqDeref (Description r) (rsDescription other))
    (andAlso (Some (Direction r = rsDirection other))
    (andAlso (eqDeref (EtherType r) (rsEtherType other))
    (andAlso (eqDeref (PortRangeMin r) (rsPortRangeMin other))
    (andAlso (eqDeref (PortRangeMax r) (rsPortRangeMax other))
    (andAlso (eqDeref (Protocol r) (rsProtocol other))
    (andAlso (eqDeref (RemoteGroupID r) (rsRemoteGroupID other))
             (eqDeref (RemoteIPPrefix r) (rsRemoteIPPrefix other))))))))"

text \<open>
  The statement repeated in \<open>reconcileGroupRules\<close>:
  \<open>if r.RemoteGroupID == remoteGroupIDSelf { r.RemoteGroupID = observed.ID }\<close>.
\<close>

definition resolveSelf :: "string \<Rightarrow> resolvedSecurityGroupRuleSpec \<Rightarrow> resolvedSecurityGroupRuleSpec" where
  "resolveSelf observedID r =
     (if RemoteGroupID r = remoteGroupIDSelf then r\<lparr>RemoteGroupID := observedID\<rparr> else r)"

subsection \<open>Conversion from the wire format\<close>

definition convertOSSecGroupRuleToConfigSecGroupRule :: "SecGroupRule \<Rightarrow> SecurityGroupRuleStatus" where
  "convertOSSecGroupRuleToConfigSecGroupRule osSecGroupRule =
     \<lparr>rsID = osID osSecGroupRule,
      rsDescription = Some (osDescription osSecGroupRule),
      rsDirection = osDirection osSecGroupRule,
      rsEtherType = Some (osEtherType osSecGroupRule),
      rsPortRangeMin = Some (osPortRangeMin osSecGroupRule),
      rsPortRangeMax = Some (osPortRangeMax osSecGroupRule),
      rsProtocol = Some (osProtocol osSecGroupRule),
      rsRemoteGroupID = Some (osRemoteGroupID osSecGroupRule),
      rsRemoteIPPrefix = Some (osRemoteIPPrefix osSecGroupRule)\<rparr>"

definition convertOSSecGroupToConfigSecGroup :: "SecGroup \<Rightarrow> SecurityGroupStatus" where
  "convertOSSecGroupToConfigSecGroup osSecGroup =
     \<lparr>gsID = osgID osSecGroup,
      gsName = osgName osSecGroup,
      gsRules = map convertOSSecGroupRuleToConfigSecGroupRule (osgRules osSecGroup)\<rparr>"

text \<open>The zero value \<open>infrav1.SecurityGroupRuleStatus{}\<close>.\<close>

definition emptySecurityGroupRuleStatus :: SecurityGroupRuleStatus where
  "emptySecurityGroupRuleStatus =
     \<lparr>rsID = [], rsDescription = None, rsDirection = [], rsEtherType = None,
      rsPortRangeMin = None, rsPortRangeMax = None, rsProtocol = None,
      rsRemoteGroupID = None, rsRemoteIPPrefix = None\<rparr>"

subsection \<open>The networking client\<close>

text \<open>
  The client is an interface of the service (\<open>s.client\<close>) whose implementation is not
  in this file: six operations on the provider, each returning a result or an error.
  The operations are parameters, and so is the type of the provider's state; nothing
  is assumed about an operation but its type. \<open>ListSecGroup\<close> takes
  the \<open>Name\<close> of its \<open>ListOpts\<close>, \<open>CreateSecGroup\<close> the \<open>Name\<close> and \<open>Description\<close> of its
  \<open>CreateOpts\<close>, \<open>ReplaceAllAttributesTags\<close> the resource kind, the ID and the tags.
\<close>

record 's client =
  ListSecGroup :: "string \<Rightarrow> 's \<Rightarrow> (string + SecGroup list) \<times> 's"
  CreateSecGroup :: "string \<Rightarrow> string \<Rightarrow> 's \<Rightarrow> (string + SecGroup) \<times> 's"
  DeleteSecGroup :: "string \<Rightarrow> 's \<Rightarrow> string option \<times> 's"
  CreateSecGroupRule :: "CreateOpts \<Rightarrow> 's \<Rightarrow> (string + SecGroupRule) \<times> 's"
  DeleteSecGroupRule :: "string \<Rightarrow> 's \<Rightarrow> string option \<times> 's"
  ReplaceAllAttributesTags :: "string \<Rightarrow> string \<Rightarrow> string list \<Rightarrow> 's \<Rightarrow> string option \<times> 's"

text \<open>
  The calls a function issues are recorded: the world is the provider's state and the
  log of the calls made so far, oldest first.
\<close>

datatype call =
    ListSecGroupCall string
  | CreateSecGroupCall string string
  | DeleteSecGroupCall string
  | CreateSecGroupRuleCall CreateOpts
  | DeleteSecGroupRuleCall string
  | ReplaceAllAttributesTagsCall string string "string list"

type_synonym 's world = "'s \<times> call list"

definition sumError :: "string + 'a \<Rightarrow> error + 'a" where
  "sumError r = (case r of Inl e \<Rightarrow> Inl (ClientError e) | Inr v \<Rightarrow> Inr v)"

definition doListSecGroup :: "'s client \<Rightarrow> string \<Rightarrow> 's world \<Rightarrow> (error + SecGroup list) \<times> 's world" where
  "doListSecGroup c name w =
     (case ListSecGroup c name (fst w) of
        (r, s1) \<Rightarrow> (sumError r, (s1, snd w @ [ListSecGroupCall name])))"

definition doCreateSecGroup :: "'s client \<Rightarrow> string \<Rightarrow> string \<Rightarrow> 's world \<Rightarrow> (error + SecGroup) \<times> 's world" where
  "doCreateSecGroup c name description w =
     (case CreateSecGroup c name description (fst w) of
        (r, s1) \<Rightarrow> (sumError r, (s1, snd w @ [CreateSecGroupCall name description])))"

definition doDeleteSecGroup :: "'s client \<Rightarrow> string \<Rightarrow> 's world \<Rightarrow> error option \<times> 's world" where
  "doDeleteSecGroup c ident w =
     (case DeleteSecGroup c ident (fst w) of
        (r, s1) \<Rightarrow> (map_option ClientError r, (s1, snd w @ [DeleteSecGroupCall ident])))"

definition doCreateSecGroupRule :: "'s client \<Rightarrow> CreateOpts \<Rightarrow> 's world \<Rightarrow> (error + SecGroupRule) \<times> 's world" where
  "doCreateSecGroupRule c opts w =
     (case CreateSecGroupRule c opts (fst w) of
        (r, s1) \<Rightarrow> (sumError r, (s1, snd w @ [CreateSecGroupRuleCall opts])))"

definition doDeleteSecGroupRule :: "'s client \<Rightarrow> string \<Rightarrow> 's world \<Rightarrow> error option \<times> 's world" where
  "doDeleteSecGroupRule c ident w =
     (case DeleteSecGroupRule c ident (fst w) of
        (r, s1) \<Rightarrow> (map_option ClientError r, (s1, snd w @ [DeleteSecGroupRuleCall ident])))"

definition doReplaceAllAttributesTags ::
  "'s client \<Rightarrow> string \<Rightarrow> string \<Rightarrow> string list \<Rightarrow> 's world \<Rightarrow> error option \<times> 's world" where
  "doReplaceAllAttributesTags c kind ident tags w =
     (case ReplaceAllAttributesTags c kind ident tags (fst w) of
        (r, s1) \<Rightarrow> (map_option ClientError r, (s1, snd w @ [ReplaceAllAttributesTagsCall kind ident tags])))"

subsection \<open>The observed state\<close>

text \<open>
  \<open>getSecurityGroupByName\<close> returns a pointer that is never nil: the address of a
  composite literal, or the result of the conversion. It is modelled as the value.
\<close>

definition getSecurityGroupByName ::
  "'s client \<Rightarrow> string \<Rightarrow> 's world \<Rightarrow> (SecurityGroupStatus \<times> error option) \<times> 's world" where
  "getSecurityGroupByName c name w =
     (case doListSecGroup c name w of
        (Inl err, w1) \<Rightarrow> ((emptySecurityGroupStatus, Some err), w1)
      | (Inr allGroups, w1) \<Rightarrow>
          (case allGroups of
             [] \<Rightarrow> ((emptySecurityGroupStatus, None), w1)
           | [g] \<Rightarrow> ((convertOSSecGroupToConfigSecGroup g, None), w1)
           | _ \<Rightarrow> ((emptySecurityGroupStatus,
                    Some (Errorf (''more than one security group found named: '' @ name))), w1)))"

subsection \<open>The group lifecycle\<close>

text \<open>
  Of the cluster, \<open>createSecurityGroupIfNotExists\<close> reads \<open>Spec.Tags\<close> only.
  \<open>secGroup == nil\<close> is false, since the pointer is never nil.
\<close>

definition createSecurityGroupIfNotExists ::
  "'s client \<Rightarrow> string list \<Rightarrow> string \<Rightarrow> 's world \<Rightarrow> error option \<times> 's world" where
  "createSecurityGroupIfNotExists c tags groupName w =
     (case getSecurityGroupByName c groupName w of
        ((secGroup, Some err), w1) \<Rightarrow> (Some err, w1)
      | ((secGroup, None), w1) \<Rightarrow>
          if gsID secGroup = [] then
            (case doCreateSecGroup c groupName ''Cluster API managed group'' w1 of
               (Inl err, w2) \<Rightarrow> (Some err, w2)
             | (Inr newGroup, w2) \<Rightarrow>
                 if length tags > 0 then
                   (case doReplaceAllAttributesTags c ''security-groups'' (osgID newGroup) tags w2 of
                      (Some err, w3) \<Rightarrow> (Some err, w3)
                    | (None, w3) \<Rightarrow> (None, w3))
                 else (None, w2))
          else (None, w1))"

definition deleteSecurityGroup :: "'s client \<Rightarrow> string \<Rightarrow> 's world \<Rightarrow> error option \<times> 's world" where
  "deleteSecurityGroup c name w =
     (case getSecurityGroupByName c name w of
        ((secGroup, Some err), w1) \<Rightarrow> (Some err, w1)
      | ((secGroup, None), w1) \<Rightarrow>
          if gsID secGroup = [] then (None, w1)
          else
            (case doDeleteSecGroup c (gsID secGroup) w1 of
               (Some err, w2) \<Rightarrow> (Some err, w2)
             | (None, w2) \<Rightarrow> (None, w2)))"

subsection \<open>The diff-apply reconciler\<close>

text \<open>
  The first pass of \<open>reconcileGroupRules\<close>. \<open>deleteRule\<close> is the value of the variable of
  that name after the inner loop over the desired rules; \<open>rulesToDelete\<close> is the list
  of that name after the outer loop over the observed rules. \<open>None\<close> is a panic in
  \<open>Matches\<close>.
\<close>

fun deleteRule :: "string \<Rightarrow> resolvedSecurityGroupRuleSpec list \<Rightarrow> SecurityGroupRuleStatus \<Rightarrow> bool option" where
  "deleteRule observedID [] observedRule = Some True"
| "deleteRule observedID (desiredRule # rest) observedRule =
     (case Matches (resolveSelf observedID desiredRule) observedRule of
        None \<Rightarrow> None
      | Some True \<Rightarrow> Some False
      | Some False \<Rightarrow> deleteRule observedID rest observedRule)"

fun rulesToDelete ::
  "string \<Rightarrow> resolvedSecurityGroupRuleSpec list \<Rightarrow> SecurityGroupRuleStatus list \<Rightarrow> string list option" where
  "rulesToDelete observedID desiredRules [] = Some []"
| "rulesToDelete observedID desiredRules (observedRule # rest) =
     (case deleteRule observedID desiredRules observedRule of
        None \<Rightarrow> None
      | Some d \<Rightarrow>
          (case rulesToDelete observedID desiredRules rest of
             None \<Rightarrow> None
           | Some ids \<Rightarrow> Some (if d then rsID observedRule # ids else ids)))"

text \<open>
  The second pass. \<open>findMatch\<close> is the inner loop over the observed rules: the first
  observed rule that the resolved desired rule matches, if any. \<open>rulesToCreate\<close> gives
  the lists \<open>rulesToCreate\<close> and \<open>reconciledRules\<close> after the outer loop.
\<close>

fun findMatch ::
  "resolvedSecurityGroupRuleSpec \<Rightarrow> SecurityGroupRuleStatus list \<Rightarrow> SecurityGroupRuleStatus option option" where
  "findMatch r [] = Some None"
| "findMatch r (observedRule # rest) =
     (case Matches r observedRule of
        None \<Rightarrow> None
      | Some True \<Rightarrow> Some (Some observedRule)
      | Some False \<Rightarrow> findMatch r rest)"

fun rulesToCreate ::
  "string \<Rightarrow> resolvedSecurityGroupRuleSpec list \<Rightarrow> SecurityGroupRuleStatus list \<Rightarrow>
   (resolvedSecurityGroupRuleSpec list \<times> SecurityGroupRuleStatus list) option" where
  "rulesToCreate observedID [] observedRules = Some ([], [])"
| "rulesToCreate observedID (desiredRule # rest) observedRules =
     (case findMatch (resolveSelf observedID desiredRule) observedRules of
        None \<Rightarrow> None
      | Some m \<Rightarrow>
          (case rulesToCreate observedID rest observedRules of
             None \<Rightarrow> None
           | Some (creates, reconciled) \<Rightarrow>
               Some (case m of
                       None \<Rightarrow> (desiredRule # creates, reconciled)
                     | Some observedRule \<Rightarrow> (creates, observedRule # reconciled))))"

text \<open>The loop of the deletions.\<close>

fun deleteRules :: "'s client \<Rightarrow> string list \<Rightarrow> 's world \<Rightarrow> error option \<times> 's world" where
  "deleteRules c [] w = (None, w)"
| "deleteRules c (rule # rest) w =
     (case doDeleteSecGroupRule c rule w of
        (Some err, w1) \<Rightarrow> (Some err, w1)
      | (None, w1) \<Rightarrow> deleteRules c rest w1)"

definition ruleCreateOpts :: "string \<Rightarrow> resolvedSecurityGroupRuleSpec \<Rightarrow> CreateOpts" where
  "ruleCreateOpts securityGroupID r =
     \<lparr>coDescription = Description r,
      coDirection = Direction r,
      coPortRangeMin = PortRangeMin r,
      coPortRangeMax = PortRangeMax r,
      coProtocol = Protocol r,
      coEtherType = EtherType r,
      coRemoteGroupID = RemoteGroupID r,
      coRemoteIPPrefix = RemoteIPPrefix r,
      coSecGroupID = securityGroupID\<rparr>"

definition createRule ::
  "'s client \<Rightarrow> string \<Rightarrow> resolvedSecurityGroupRuleSpec \<Rightarrow> 's world \<Rightarrow>
   (SecurityGroupRuleStatus \<times> error option) \<times> 's world" where
  "createRule c securityGroupID r w =
     (case doCreateSecGroupRule c (ruleCreateOpts securityGroupID r) w of
        (Inl err, w1) \<Rightarrow> ((emptySecurityGroupRuleStatus, Some err), w1)
      | (Inr rule, w1) \<Rightarrow> ((convertOSSecGroupRuleToConfigSecGroupRule rule, None), w1))"

text \<open>The loop of the creations, which appends each new rule to \<open>reconciledRules\<close>.\<close>

fun createRules ::
  "'s client \<Rightarrow> string \<Rightarrow> resolvedSecurityGroupRuleSpec list \<Rightarrow> SecurityGroupRuleStatus list \<Rightarrow>
   's world \<Rightarrow> (SecurityGroupRuleStatus list \<times> error option) \<times> 's world" where
  "createRules c observedID [] reconciledRules w = ((reconciledRules, None), w)"
| "createRules c observedID (rule # rest) reconciledRules w =
     (case createRule c observedID (resolveSelf observedID rule) w of
        ((newRule, Some err), w1) \<Rightarrow> ((reconciledRules, Some err), w1)
      | ((newRule, None), w1) \<Rightarrow> createRules c observedID rest (reconciledRules @ [newRule]) w1)"

definition reconcileGroupRules ::
  "'s client \<Rightarrow> securityGroupSpec \<Rightarrow> SecurityGroupStatus \<Rightarrow> 's world \<Rightarrow>
   (SecurityGroupStatus \<times> error option) option \<times> 's world" where
  "reconcileGroupRules c desired observed w =
     (case rulesToDelete (gsID observed) (Rules desired) (gsRules observed) of
        None \<Rightarrow> (None, w)
      | Some toDelete \<Rightarrow>
          (case rulesToCreate (gsID observed) (Rules desired) (gsRules observed) of
             None \<Rightarrow> (None, w)
           | Some (toCreate, matched) \<Rightarrow>
               (case deleteRules c toDelete w of
                  (Some err, w1) \<Rightarrow> (Some (emptySecurityGroupStatus, Some err), w1)
                | (None, w1) \<Rightarrow>
                    (case createRules c (gsID observed) toCreate matched w1 of
                       ((reconciledRules, Some err), w2) \<Rightarrow>
                         (Some (emptySecurityGroupStatus, Some err), w2)
                     | ((reconciledRules, None), w2) \<Rightarrow>
                         if length reconciledRules = 0
                         then (Some (emptySecurityGroupStatus, None), w2)
                         else (Some (observed\<lparr>gsRules := reconciledRules\<rparr>, None), w2)))))"

subsection \<open>The desired state\<close>

text \<open>
  \<open>remoteManagedGroups\<close> is a Go map from a suffix to a group ID: a lookup of a missing
  key gives the empty string.
\<close>

definition lookupOrEmpty :: "(string \<rightharpoonup> string) \<Rightarrow> string \<Rightarrow> string" where
  "lookupOrEmpty m k = (case m k of None \<Rightarrow> [] | Some v \<Rightarrow> v)"

text \<open>The loop of \<open>validateRemoteManagedGroups\<close> over the groups a rule names.\<close>

fun validateGroupNames :: "(string \<rightharpoonup> string) \<Rightarrow> string list \<Rightarrow> error option" where
  "validateGroupNames remoteManagedGroups [] = None"
| "validateGroupNames remoteManagedGroups (grp # rest) =
     (if remoteManagedGroups grp = None
      then Some (Errorf (''remoteManagedGroups: '' @ grp @ '' is not a valid remote managed security group''))
      else validateGroupNames remoteManagedGroups rest)"

definition validateRemoteManagedGroups :: "(string \<rightharpoonup> string) \<Rightarrow> string list \<Rightarrow> error option" where
  "validateRemoteManagedGroups remoteManagedGroups ruleRemoteManagedGroups =
     (if length ruleRemoteManagedGroups = 0 then Some (Errorf ''remoteManagedGroups is required'')
      else validateGroupNames remoteManagedGroups ruleRemoteManagedGroups)"

text \<open>
  The rule \<open>r\<close> that \<open>getAllNodesRules\<close> builds from a template: the direction, and
  each other field when its pointer is set, the zero value otherwise.
\<close>

definition templateRule :: "SecurityGroupRuleSpec \<Rightarrow> resolvedSecurityGroupRuleSpec" where
  "templateRule rule =
     \<lparr>Description = (case tDescription rule of None \<Rightarrow> [] | Some v \<Rightarrow> v),
      Direction = tDirection rule,
      EtherType = (case tEtherType rule of None \<Rightarrow> [] | Some v \<Rightarrow> v),
      PortRangeMin = (case tPortRangeMin rule of None \<Rightarrow> 0 | Some v \<Rightarrow> v),
      PortRangeMax = (case tPortRangeMax rule of None \<Rightarrow> 0 | Some v \<Rightarrow> v),
      Protocol = (case tProtocol rule of None \<Rightarrow> [] | Some v \<Rightarrow> v),
      RemoteGroupID = (case tRemoteGroupID rule of None \<Rightarrow> [] | Some v \<Rightarrow> v),
      RemoteIPPrefix = (case tRemoteIPPrefix rule of None \<Rightarrow> [] | Some v \<Rightarrow> v)\<rparr>"

text \<open>The loop of \<open>getAllNodesRules\<close>, with the slice \<open>rules\<close> built so far.\<close>

fun allNodesRulesLoop ::
  "(string \<rightharpoonup> string) \<Rightarrow> SecurityGroupRuleSpec list \<Rightarrow> resolvedSecurityGroupRuleSpec list \<Rightarrow>
   resolvedSecurityGroupRuleSpec list \<times> error option" where
  "allNodesRulesLoop remoteManagedGroups [] rules = (rules, None)"
| "allNodesRulesLoop remoteManagedGroups (rule # rest) rules =
     (case validateRemoteManagedGroups remoteManagedGroups (tRemoteManagedGroups rule) of
        Some err \<Rightarrow> ([], Some err)
      | None \<Rightarrow>
          if length (tRemoteManagedGroups rule) > 0 then
            if tRemoteGroupID rule \<noteq> None
            then ([], Some (Errorf ''remoteGroupID must not be set when remoteManagedGroups is set''))
            else allNodesRulesLoop remoteManagedGroups rest
                   (rules @ map (\<lambda>rg. (templateRule rule)\<lparr>RemoteGroupID := lookupOrEmpty remoteManagedGroups rg\<rparr>)
                              (tRemoteManagedGroups rule))
          else allNodesRulesLoop remoteManagedGroups rest (rules @ [templateRule rule]))"

definition getAllNodesRules ::
  "(string \<rightharpoonup> string) \<Rightarrow> SecurityGroupRuleSpec list \<Rightarrow>
   resolvedSecurityGroupRuleSpec list \<times> error option" where
  "getAllNodesRules remoteManagedGroups allNodesSecurityGroupRules =
     allNodesRulesLoop remoteManagedGroups allNodesSecurityGroupRules []"

text \<open>The fields of the cluster's \<open>Spec\<close> that the service reads.\<close>

record ManagedSecurityGroups =
  AllNodesSecurityGroupRules :: "SecurityGroupRuleSpec list"
  AllowAllInClusterTraffic :: bool

record APIServerLoadBalancer =
  lbEnabled :: bool
  AdditionalPorts :: "int list"

record Bastion =
  bastionEnabled :: bool

record OpenStackClusterSpec =
  specManagedSecurityGroups :: "ManagedSecurityGroups option"
  specAPIServerLoadBalancer :: APIServerLoadBalancer
  specBastion :: "Bastion option"
  specTags :: "string list"

text \<open>
  The rule tables and rule builders of the package that \<open>generateDesiredSecGroups\<close>
  calls are declared in another file of the package; they are parameters here.
\<close>

record ruleBuilders =
  defaultRules :: "resolvedSecurityGroupRuleSpec list"
  getSGControlPlaneHTTPS :: "resolvedSecurityGroupRuleSpec list"
  getSGWorkerNodePort :: "resolvedSecurityGroupRuleSpec list"
  getSGControlPlaneAdditionalPorts :: "int list \<Rightarrow> resolvedSecurityGroupRuleSpec list"
  getSGControlPlaneAllowAll :: "string \<Rightarrow> string \<Rightarrow> resolvedSecurityGroupRuleSpec list"
  getSGWorkerAllowAll :: "string \<Rightarrow> string \<Rightarrow> resolvedSecurityGroupRuleSpec list"
  getSGControlPlaneGeneral :: "string \<Rightarrow> string \<Rightarrow> resolvedSecurityGroupRuleSpec list"
  getSGWorkerGeneral :: "string \<Rightarrow> string \<Rightarrow> resolvedSecurityGroupRuleSpec list"
  getSGControlPlaneSSH :: "string \<Rightarrow> resolvedSecurityGroupRuleSpec list"
  getSGWorkerSSH :: "string \<Rightarrow> resolvedSecurityGroupRuleSpec list"

text \<open>
  The first loop of \<open>generateDesiredSecGroups\<close> looks every group up by name and fills
  three variables and the table \<open>remoteManagedGroups\<close>. The Go map \<open>secGroupNames\<close> is
  a list of pairs of a suffix and a name, in the order the loop visits them.
\<close>

record groupIDs =
  secControlPlaneGroupID :: string
  secWorkerGroupID :: string
  secBastionGroupID :: string
  remoteManagedGroups :: "string \<rightharpoonup> string"

definition noGroupIDs :: groupIDs where
  "noGroupIDs = \<lparr>secControlPlaneGroupID = [], secWorkerGroupID = [], secBastionGroupID = [],
                 remoteManagedGroups = Map.empty\<rparr>"

fun lookupGroupIDs ::
  "'s client \<Rightarrow> (string \<times> string) list \<Rightarrow> groupIDs \<Rightarrow> 's world \<Rightarrow>
   (groupIDs \<times> error option) \<times> 's world" where
  "lookupGroupIDs c [] ids w = ((ids, None), w)"
| "lookupGroupIDs c ((i, v) # rest) ids w =
     (case getSecurityGroupByName c v w of
        ((secGroup, Some err), w1) \<Rightarrow> ((ids, Some err), w1)
      | ((secGroup, None), w1) \<Rightarrow>
          lookupGroupIDs c rest
            (if i = controlPlaneSuffix then
               ids\<lparr>secControlPlaneGroupID := gsID secGroup,
                   remoteManagedGroups := (remoteManagedGroups ids)(controlPlaneSuffix \<mapsto> gsID secGroup)\<rparr>
             else if i = workerSuffix then
               ids\<lparr>secWorkerGroupID := gsID secGroup,
                   remoteManagedGroups := (remoteManagedGroups ids)(workerSuffix \<mapsto> gsID secGroup)\<rparr>
             else if i = bastionSuffix then
               ids\<lparr>secBastionGroupID := gsID secGroup,
                   remoteManagedGroups := (remoteManagedGroups ids)(bastionSuffix \<mapsto> gsID secGroup)\<rparr>
             else ids)
            w1)"

definition bastionIsEnabled :: "OpenStackClusterSpec \<Rightarrow> bool" where
  "bastionIsEnabled spec = (case specBastion spec of None \<Rightarrow> False | Some b \<Rightarrow> bastionEnabled b)"

definition bastionSSHRule :: resolvedSecurityGroupRuleSpec where
  "bastionSSHRule =
     \<lparr>Description = ''SSH'', Direction = ''ingress'', EtherType = ''IPv4'',
      PortRangeMin = 22, PortRangeMax = 22, Protocol = ''tcp'',
      RemoteGroupID = [], RemoteIPPrefix = []\<rparr>"

text \<open>
  The rules of the control plane and of the workers before the all-nodes rules are
  appended, and the rules appended after them.
\<close>

definition controlPlaneRulesBefore :: "ruleBuilders \<Rightarrow> OpenStackClusterSpec \<Rightarrow> ManagedSecurityGroups \<Rightarrow> groupIDs \<Rightarrow> resolvedSecurityGroupRuleSpec list" where
  "controlPlaneRulesBefore b spec managed ids =
     (([] @ defaultRules b) @ getSGControlPlaneHTTPS b)
     @ (if lbEnabled (specAPIServerLoadBalancer spec)
        then getSGControlPlaneAdditionalPorts b (AdditionalPorts (specAPIServerLoadBalancer spec))
        else [])
     @ (if AllowAllInClusterTraffic managed
        then getSGControlPlaneAllowAll b remoteGroupIDSelf (secWorkerGroupID ids)
        else getSGControlPlaneGeneral b remoteGroupIDSelf (secWorkerGroupID ids))"

definition workerRulesBefore :: "ruleBuilders \<Rightarrow> ManagedSecurityGroups \<Rightarrow> groupIDs \<Rightarrow> resolvedSecurityGroupRuleSpec list" where
  "workerRulesBefore b managed ids =
     (([] @ defaultRules b) @ getSGWorkerNodePort b)
     @ (if AllowAllInClusterTraffic managed
        then getSGWorkerAllowAll b remoteGroupIDSelf (secControlPlaneGroupID ids)
        else getSGWorkerGeneral b remoteGroupIDSelf (secControlPlaneGroupID ids))"

definition nameOf :: "(string \<times> string) list \<Rightarrow> string \<Rightarrow> string" where
  "nameOf secGroupNames k = (case map_of secGroupNames k of None \<Rightarrow> [] | Some n \<Rightarrow> n)"

definition generateDesiredSecGroups ::
  "ruleBuilders \<Rightarrow> 's client \<Rightarrow> OpenStackClusterSpec \<Rightarrow> (string \<times> string) list \<Rightarrow> 's world \<Rightarrow>
   ((string \<rightharpoonup> securityGroupSpec) \<times> error option) \<times> 's world" where
  "generateDesiredSecGroups b c spec secGroupNames w =
     (case specManagedSecurityGroups spec of
        None \<Rightarrow> ((Map.empty, None), w)
      | Some managed \<Rightarrow>
          (case lookupGroupIDs c secGroupNames noGroupIDs w of
             ((ids, Some err), w1) \<Rightarrow> ((Map.empty, Some err), w1)
           | ((ids, None), w1) \<Rightarrow>
               (case getAllNodesRules (remoteManagedGroups ids) (AllNodesSecurityGroupRules managed) of
                  (allNodesRules, Some err) \<Rightarrow> ((Map.empty, Some err), w1)
                | (allNodesRules, None) \<Rightarrow>
                    (let controlPlaneRules = controlPlaneRulesBefore b spec managed ids @ allNodesRules;
                         workerRules = workerRulesBefore b managed ids @ allNodesRules;
                         controlPlaneRules2 =
                           (if bastionIsEnabled spec
                            then controlPlaneRules @ getSGControlPlaneSSH b (secBastionGroupID ids)
                            else controlPlaneRules);
                         workerRules2 =
                           (if bastionIsEnabled spec
                            then workerRules @ getSGWorkerSSH b (secBastionGroupID ids)
                            else workerRules);
                         desiredSecGroups =
                           (if bastionIsEnabled spec
                            then Map.empty(bastionSuffix \<mapsto>
                                   \<lparr>Name = nameOf secGroupNames bastionSuffix,
                                    Rules = [bastionSSHRule] @ defaultRules b\<rparr>)
                            else Map.empty)
                     in ((desiredSecGroups
                            (controlPlaneSuffix \<mapsto>
                               \<lparr>Name = nameOf secGroupNames controlPlaneSuffix, Rules = controlPlaneRules2\<rparr>,
                             workerSuffix \<mapsto>
                               \<lparr>Name = nameOf secGroupNames workerSuffix, Rules = workerRules2\<rparr>),
                          None), w1)))))"

subsection \<open>Notions used to state the properties\<close>

text \<open>The seven pointer fields of a rule status are all set.\<close>

definition pointersSet :: "SecurityGroupRuleStatus \<Rightarrow> bool" where
  "pointersSet other =
     (rsDescription other \<noteq> None \<and> rsEtherType other \<noteq> None \<and> rsPortRangeMin other \<noteq> None \<and>
      rsPortRangeMax other \<noteq> None \<and> rsProtocol other \<noteq> None \<and> rsRemoteGroupID other \<noteq> None \<and>
      rsRemoteIPPrefix other \<noteq> None)"


definition ruleStructure :: "resolvedSecurityGroupRuleSpec \<Rightarrow> SecurityGroupRuleStatus" where
  "ruleStructure r =
     \<lparr>rsID = [],
      rsDescription = Some (Description r),
      rsDirection = Direction r,
      rsEtherType = Some (EtherType r),
      rsPortRangeMin = Some (PortRangeMin r),
      rsPortRangeMax = Some (PortRangeMax r),
      rsProtocol = Some (Protocol r),
      rsRemoteGroupID = Some (RemoteGroupID r),
      rsRemoteIPPrefix = Some (RemoteIPPrefix r)\<rparr>"

text \<open>
  Modelled from the spec: the implementation of the client's \<open>CreateSecGroupRule\<close> is
  not in this file. The specification gives the call as
  \<open>CreateRule(groupID, RuleSpec) \<rightarrow> RuleStatus{id, ...}\<close>: the rule it returns is the rule
  asked for, with an ID of the provider's. In the model: a rule that
  \<open>CreateSecGroupRule\<close> returns has the eight fields of its options. Convergence and
  idempotence are stated for a client that keeps this contract.
\<close>

definition createReturnsRequested :: "'s client \<Rightarrow> bool" where
  "createReturnsRequested c =
     (\<forall>opts s rule s1. CreateSecGroupRule c opts s = (Inr rule, s1) \<longrightarrow>
        osDescription rule = coDescription opts \<and> osDirection rule = coDirection opts \<and>
        osEtherType rule = coEtherType opts \<and> osPortRangeMin rule = coPortRangeMin opts \<and>
        osPortRangeMax rule = coPortRangeMax opts \<and> osProtocol rule = coProtocol opts \<and>
        osRemoteGroupID rule = coRemoteGroupID opts \<and> osRemoteIPPrefix rule = coRemoteIPPrefix opts)"

text \<open>
  A reference behaviour for a list of mutating calls, after the specification's words:
  the calls are issued in order, one at a time; the first call that fails ends the
  sequence with its error; nothing is issued after it and nothing is undone.
\<close>

fun perform :: "'s client \<Rightarrow> call \<Rightarrow> 's \<Rightarrow> string option \<times> 's" where
  "perform c (ListSecGroupCall name) s =
     (case ListSecGroup c name s of (Inl e, s1) \<Rightarrow> (Some e, s1) | (Inr v, s1) \<Rightarrow> (None, s1))"
| "perform c (CreateSecGroupCall name description) s =
     (case CreateSecGroup c name description s of (Inl e, s1) \<Rightarrow> (Some e, s1) | (Inr v, s1) \<Rightarrow> (None, s1))"
| "perform c (DeleteSecGroupCall ident) s = DeleteSecGroup c ident s"
| "perform c (CreateSecGroupRuleCall opts) s =
     (case CreateSecGroupRule c opts s of (Inl e, s1) \<Rightarrow> (Some e, s1) | (Inr v, s1) \<Rightarrow> (None, s1))"
| "perform c (DeleteSecGroupRuleCall ident) s = DeleteSecGroupRule c ident s"
| "perform c (ReplaceAllAttributesTagsCall kind ident tags) s = ReplaceAllAttributesTags c kind ident tags s"

fun issueInOrder :: "'s client \<Rightarrow> call list \<Rightarrow> 's world \<Rightarrow> error option \<times> 's world" where
  "issueInOrder c [] w = (None, w)"
| "issueInOrder c (x # xs) w =
     (case perform c x (fst w) of
        (Some e, s1) \<Rightarrow> (Some (ClientError e), (s1, snd w @ [x]))
      | (None, s1) \<Rightarrow> issueInOrder c xs (s1, snd w @ [x]))"

text \<open>The calls of one pass of the reconciler, as planned from the two differences.\<close>

definition plannedCalls :: "string \<Rightarrow> string list \<Rightarrow> resolvedSecurityGroupRuleSpec list \<Rightarrow> call list" where
  "plannedCalls observedID toDelete toCreate =
     map DeleteSecGroupRuleCall toDelete
     @ map (\<lambda>r. CreateSecGroupRuleCall (ruleCreateOpts observedID (resolveSelf observedID r))) toCreate"

definition isMutating :: "call \<Rightarrow> bool" where
  "isMutating x = (case x of ListSecGroupCall name \<Rightarrow> False | _ \<Rightarrow> True)"

subsection \<open>A provider in memory\<close>

text \<open>
  A small client for the examples: its state is the list of the groups that exist.
  A group is listed by name; a created rule gets the ID \<open>rule-\<close> followed by its
  description and is added to its group; a rule described as \<open>refused\<close> is refused, and
  so is the deletion of the rule \<open>locked\<close>; listing the name \<open>unreachable\<close> fails.
\<close>

definition mockRule :: "CreateOpts \<Rightarrow> SecGroupRule" where
  "mockRule opts =
     \<lparr>osID = ''rule-'' @ coDescription opts,
      osDirection = coDirection opts,
      osDescription = coDescription opts,
      osEtherType = coEtherType opts,
      osPortRangeMin = coPortRangeMin opts,
      osPortRangeMax = coPortRangeMax opts,
      osProtocol = coProtocol opts,
      osRemoteGroupID = coRemoteGroupID opts,
      osRemoteIPPrefix = coRemoteIPPrefix opts\<rparr>"

definition mockClient :: "(SecGroup list) client" where
  "mockClient =
     \<lparr>ListSecGroup = (\<lambda>name s.
        if name = ''unreachable'' then (Inl ''connection refused'', s)
        else (Inr (filter (\<lambda>g. osgName g = name) s), s)),
      CreateSecGroup = (\<lambda>name description s.
        (Inr \<lparr>osgID = ''id-'' @ name, osgName = name, osgRules = []\<rparr>,
         s @ [\<lparr>osgID = ''id-'' @ name, osgName = name, osgRules = []\<rparr>])),
      DeleteSecGroup = (\<lambda>ident s. (None, filter (\<lambda>g. osgID g \<noteq> ident) s)),
      CreateSecGroupRule = (\<lambda>opts s.
        if coDescription opts = ''refused'' then (Inl ''quota exceeded'', s)
        else (Inr (mockRule opts),
              map (\<lambda>g. if osgID g = coSecGroupID opts
                       then g\<lparr>osgRules := osgRules g @ [mockRule opts]\<rparr> else g) s)),
      DeleteSecGroupRule = (\<lambda>ident s.
        if ident = ''locked'' then (Some ''rule is locked'', s)
        else (None, map (\<lambda>g. g\<lparr>osgRules := filter (\<lambda>r. osID r \<noteq> ident) (osgRules g)\<rparr>) s)),
      ReplaceAllAttributesTags = (\<lambda>kind ident tags s. (None, s))\<rparr>"

text \<open>Rules and groups of the examples.\<close>

definition sshRule :: "string \<Rightarrow> resolvedSecurityGroupRuleSpec" where
  "sshRule remote =
     \<lparr>Description = ''ssh'', Direction = ''ingress'', EtherType = ''IPv4'',
      PortRangeMin = 22, PortRangeMax = 22, Protocol = ''tcp'',
      RemoteGroupID = remote, RemoteIPPrefix = []\<rparr>"

definition dnsRule :: resolvedSecurityGroupRuleSpec where
  "dnsRule =
     \<lparr>Description = ''dns'', Direction = ''egress'', EtherType = ''IPv4'',
      PortRangeMin = 53, PortRangeMax = 53, Protocol = ''udp'',
      RemoteGroupID = [], RemoteIPPrefix = []\<rparr>"

definition observedRule :: "string \<Rightarrow> resolvedSecurityGroupRuleSpec \<Rightarrow> SecurityGroupRuleStatus" where
  "observedRule ident r = (ruleStructure r)\<lparr>rsID := ident\<rparr>"

text \<open>
  A desired rule is satisfied by the observed rules when, with \<open>self\<close> resolved to the
  observed group's ID, it matches one of them.
\<close>

definition satisfied :: "string \<Rightarrow> SecurityGroupRuleStatus list \<Rightarrow> resolvedSecurityGroupRuleSpec \<Rightarrow> bool" where
  "satisfied observedID observedRules desiredRule =
     (\<exists>ob\<in>set observedRules. Matches (resolveSelf observedID desiredRule) ob = Some True)"

definition exampleDesired :: securityGroupSpec where
  "exampleDesired =
     \<lparr>Name = ''k8s-cluster-demo-secgroup-worker'', Rules = [sshRule remoteGroupIDSelf, dnsRule]\<rparr>"

definition exampleObserved :: SecurityGroupStatus where
  "exampleObserved =
     \<lparr>gsID = ''g1'', gsName = ''k8s-cluster-demo-secgroup-worker'',
      gsRules = [observedRule ''r1'' dnsRule, observedRule ''r2'' (sshRule ''other'')]\<rparr>"

definition exampleReconciled :: SecurityGroupStatus where
  "exampleReconciled =
     \<lparr>gsID = ''g1'', gsName = ''k8s-cluster-demo-secgroup-worker'',
      gsRules = [observedRule ''r1'' dnsRule, observedRule ''rule-ssh'' (sshRule ''g1'')]\<rparr>"

definition exampleCalls :: "call list" where
  "exampleCalls =
     [DeleteSecGroupRuleCall ''r2'', CreateSecGroupRuleCall (ruleCreateOpts ''g1'' (sshRule ''g1''))]"

definition exampleLocked :: SecurityGroupStatus where
  "exampleLocked =
     \<lparr>gsID = ''g1'', gsName = ''k8s-cluster-demo-secgroup-worker'',
      gsRules = [observedRule ''r2'' (sshRule ''other''), observedRule ''locked'' (sshRule ''legacy'')]\<rparr>"

definition exampleNoRules :: securityGroupSpec where
  "exampleNoRules = \<lparr>Name = ''k8s-cluster-demo-secgroup-worker'', Rules = []\<rparr>"

definition exampleGroup :: "string \<Rightarrow> string \<Rightarrow> SecGroup" where
  "exampleGroup ident name =
     \<lparr>osgID = ident, osgName = name, osgRules = [mockRule (ruleCreateOpts ident dnsRule)]\<rparr>"

text \<open>An observed rule whose \<open>EtherType\<close> pointer is nil.\<close>

definition exampleNilRule :: SecurityGroupRuleStatus where
  "exampleNilRule = (observedRule ''r5'' (sshRule ''other''))\<lparr>rsEtherType := None\<rparr>"

text \<open>
  A template is accepted by \<open>getAllNodesRules\<close> when it names at least one managed
  group, every group it names is in the table, and it sets no direct remote group ID;
  it then expands into one rule for each group it names.
\<close>

definition templateAccepted :: "(string \<rightharpoonup> string) \<Rightarrow> SecurityGroupRuleSpec \<Rightarrow> bool" where
  "templateAccepted table rule =
     (tRemoteManagedGroups rule \<noteq> [] \<and>
      (\<forall>grp\<in>set (tRemoteManagedGroups rule). table grp \<noteq> None) \<and>
      tRemoteGroupID rule = None)"

definition expandTemplate :: "(string \<rightharpoonup> string) \<Rightarrow> SecurityGroupRuleSpec \<Rightarrow> resolvedSecurityGroupRuleSpec list" where
  "expandTemplate table rule =
     map (\<lambda>rg. (templateRule rule)\<lparr>RemoteGroupID := lookupOrEmpty table rg\<rparr>) (tRemoteManagedGroups rule)"

text \<open>Templates, a table, rule builders and a cluster for the examples.\<close>

definition etcdTemplate :: "string option \<Rightarrow> string list \<Rightarrow> SecurityGroupRuleSpec" where
  "etcdTemplate direct roles =
     \<lparr>tDescription = Some ''etcd'', tDirection = ''ingress'', tEtherType = Some ''IPv4'',
      tPortRangeMin = Some 2379, tPortRangeMax = Some 2380, tProtocol = Some ''tcp'',
      tRemoteGroupID = direct, tRemoteManagedGroups = roles, tRemoteIPPrefix = None\<rparr>"

definition etcdRule :: "string \<Rightarrow> resolvedSecurityGroupRuleSpec" where
  "etcdRule remote =
     \<lparr>Description = ''etcd'', Direction = ''ingress'', EtherType = ''IPv4'',
      PortRangeMin = 2379, PortRangeMax = 2380, Protocol = ''tcp'',
      RemoteGroupID = remote, RemoteIPPrefix = []\<rparr>"

definition exampleTable :: "string \<rightharpoonup> string" where
  "exampleTable = [controlPlaneSuffix \<mapsto> ''g-cp'', workerSuffix \<mapsto> ''g-w'']"

definition exampleBuilders :: ruleBuilders where
  "exampleBuilders =
     \<lparr>defaultRules = [dnsRule],
      getSGControlPlaneHTTPS = [],
      getSGWorkerNodePort = [],
      getSGControlPlaneAdditionalPorts = (\<lambda>ports. []),
      getSGControlPlaneAllowAll = (\<lambda>self remote. [sshRule self]),
      getSGWorkerAllowAll = (\<lambda>self remote. [sshRule remote]),
      getSGControlPlaneGeneral = (\<lambda>self remote. []),
      getSGWorkerGeneral = (\<lambda>self remote. []),
      getSGControlPlaneSSH = (\<lambda>remote. []),
      getSGWorkerSSH = (\<lambda>remote. [])\<rparr>"

definition exampleManaged :: "SecurityGroupRuleSpec list \<Rightarrow> ManagedSecurityGroups" where
  "exampleManaged templates =
     \<lparr>AllNodesSecurityGroupRules = templates, AllowAllInClusterTraffic = True\<rparr>"

definition exampleCluster :: "SecurityGroupRuleSpec list \<Rightarrow> OpenStackClusterSpec" where
  "exampleCluster templates =
     \<lparr>specManagedSecurityGroups = Some (exampleManaged templates),
      specAPIServerLoadBalancer = \<lparr>lbEnabled = False, AdditionalPorts = []\<rparr>,
      specBastion = None,
      specTags = []\<rparr>"

definition exampleNames :: "(string \<times> string) list" where
  "exampleNames = [(controlPlaneSuffix, ''n-cp''), (workerSuffix, ''n-w'')]"

definition exampleProvider :: "SecGroup list" where
  "exampleProvider =
     [\<lparr>osgID = ''g-cp'', osgName = ''n-cp'', osgRules = []\<rparr>,
      \<lparr>osgID = ''g-w'', osgName = ''n-w'', osgRules = []\<rparr>]"

definition exampleIDs :: groupIDs where
  "exampleIDs =
     \<lparr>secControlPlaneGroupID = ''g-cp'', secWorkerGroupID = ''g-w'', secBastionGroupID = [],
      remoteManagedGroups = exampleTable\<rparr>"

section \<open>Properties\<close>

subsection \<open>The matching predicate\<close>


lemma andAlso_True_iff: "andAlso a b = Some True \<longleftrightarrow> a = Some True \<and> b = Some True"
  by (cases "(a, b)" rule: andAlso.cases) auto

lemma andAlso_None_iff: "andAlso a b = None \<longleftrightarrow> a = None \<or> (a = Some True \<and> b = None)"
  by (cases "(a, b)" rule: andAlso.cases) auto

lemma eqDeref_True_iff: "eqDeref x p = Some True \<longleftrightarrow> p = Some x"
  by (auto simp: eqDeref_def split: option.splits)

lemma eqDeref_None_iff: "eqDeref x p = None \<longleftrightarrow> p = None"
  by (simp add: eqDeref_def split: option.splits)

lemma Matches_True_iff:
  "Matches r other = Some True \<longleftrightarrow>
     rsDescription other = Some (Description r) \<and>
     rsDirection other = Direction r \<and>
     rsEtherType other = Some (EtherType r) \<and>
     rsPortRangeMin other = Some (PortRangeMin r) \<and>
     rsPortRangeMax other = Some (PortRangeMax r) \<and>
     rsProtocol other = Some (Protocol r) \<and>
     rsRemoteGroupID other = Some (RemoteGroupID r) \<and>
     rsRemoteIPPrefix other = Some (RemoteIPPrefix r)"
  unfolding Matches_def andAlso_True_iff eqDeref_True_iff by auto

lemma Matches_None_iff:
  "Matches r other = None \<longleftrightarrow>
     rsDescription other = None \<or>
     (rsDescription other = Some (Description r) \<and> Direction r = rsDirection other \<and>
      (rsEtherType other = None \<or>
       (rsEtherType other = Some (EtherType r) \<and>
        (rsPortRangeMin other = None \<or>
         (rsPortRangeMin other = Some (PortRangeMin r) \<and>
          (rsPortRangeMax other = None \<or>
           (rsPortRangeMax other = Some (PortRangeMax r) \<and>
            (rsProtocol other = None \<or>
             (rsProtocol other = Some (Protocol r) \<and>
              (rsRemoteGroupID other = None \<or>
               (rsRemoteGroupID other = Some (RemoteGroupID r) \<and>
                rsRemoteIPPrefix other = None)))))))))))"
  unfolding Matches_def andAlso_None_iff eqDeref_True_iff eqDeref_None_iff by auto

lemma Matches_pointersSet: "pointersSet other \<Longrightarrow> Matches r other \<noteq> None"
  unfolding Matches_None_iff pointersSet_def by auto

lemma Matches_True_pointersSet: "Matches r other = Some True \<Longrightarrow> pointersSet other"
  unfolding Matches_True_iff pointersSet_def by auto


lemma convert_pointersSet: "pointersSet (convertOSSecGroupRuleToConfigSecGroupRule rule)"
  by (simp add: pointersSet_def convertOSSecGroupRuleToConfigSecGroupRule_def)

text \<open>The first pass.\<close>

lemma deleteRule_False:
  "deleteRule g ds ob = Some False \<Longrightarrow> \<exists>d\<in>set ds. Matches (resolveSelf g d) ob = Some True"
  by (induction ds) (auto split: option.splits bool.splits)

lemma deleteRule_True:
  "deleteRule g ds ob = Some True \<Longrightarrow> \<forall>d\<in>set ds. Matches (resolveSelf g d) ob = Some False"
  by (induction ds) (auto split: option.splits bool.splits)

lemma deleteRule_total:
  "pointersSet ob \<Longrightarrow> deleteRule g ds ob = Some (\<not> (\<exists>d\<in>set ds. Matches (resolveSelf g d) ob = Some True))"
  by (induction ds) (auto split: option.splits bool.splits dest: Matches_pointersSet)

lemma rulesToDelete_filter:
  "rulesToDelete g ds obs = Some ids \<Longrightarrow>
   ids = map rsID (filter (\<lambda>ob. \<forall>d\<in>set ds. Matches (resolveSelf g d) ob \<noteq> Some True) obs)"
proof (induction obs arbitrary: ids)
  case Nil
  then show ?case by simp
next
  case (Cons ob obs)
  from Cons.prems obtain d rest where d: "deleteRule g ds ob = Some d"
    and rest: "rulesToDelete g ds obs = Some rest"
    and ids: "ids = (if d then rsID ob # rest else rest)"
    by (auto split: option.splits)
  have "d \<longleftrightarrow> (\<forall>x\<in>set ds. Matches (resolveSelf g x) ob \<noteq> Some True)"
  proof (cases d)
    case True
    with d deleteRule_True [of g ds ob] show ?thesis by auto
  next
    case False
    with d deleteRule_False [of g ds ob] show ?thesis by auto
  qed
  with Cons.IH [OF rest] ids show ?case by simp
qed

lemma rulesToDelete_total:
  "\<forall>ob\<in>set obs. pointersSet ob \<Longrightarrow> \<exists>ids. rulesToDelete g ds obs = Some ids"
  by (induction obs) (auto simp: deleteRule_total)

text \<open>The second pass.\<close>

lemma findMatch_Some:
  "findMatch r obs = Some (Some ob) \<Longrightarrow> ob \<in> set obs \<and> Matches r ob = Some True"
  by (induction obs) (auto split: option.splits bool.splits)

lemma findMatch_None:
  "findMatch r obs = Some None \<Longrightarrow> \<forall>ob\<in>set obs. Matches r ob = Some False"
  by (induction obs) (auto split: option.splits bool.splits)

lemma findMatch_total:
  "\<forall>ob\<in>set obs. pointersSet ob \<Longrightarrow> \<exists>m. findMatch r obs = Some m"
  by (induction obs) (auto split: option.splits bool.splits dest: Matches_pointersSet)

lemma findMatch_found:
  "\<forall>ob\<in>set obs. pointersSet ob \<Longrightarrow> ob \<in> set obs \<Longrightarrow> Matches r ob = Some True \<Longrightarrow>
   \<exists>ob'. findMatch r obs = Some (Some ob')"
  using findMatch_total [of obs r] findMatch_None [of r obs]
  by (cases "findMatch r obs") (auto, metis not_Some_eq option.inject)

lemma rulesToCreate_lists:
  "rulesToCreate g ds obs = Some (cs, rs) \<Longrightarrow>
   cs = filter (\<lambda>d. findMatch (resolveSelf g d) obs = Some None) ds \<and>
   list_all2 (\<lambda>d ob. findMatch (resolveSelf g d) obs = Some (Some ob))
     (filter (\<lambda>d. findMatch (resolveSelf g d) obs \<noteq> Some None) ds) rs"
proof (induction ds arbitrary: cs rs)
  case Nil
  then show ?case by simp
next
  case (Cons d ds)
  from Cons.prems obtain m cs' rs' where m: "findMatch (resolveSelf g d) obs = Some m"
    and rest: "rulesToCreate g ds obs = Some (cs', rs')"
    and res: "(cs, rs) = (case m of None \<Rightarrow> (d # cs', rs') | Some ob \<Rightarrow> (cs', ob # rs'))"
    by (auto split: option.splits)
  from Cons.IH [OF rest] m res show ?case
    by (cases m) auto
qed

lemma rulesToCreate_all_matched:
  assumes "\<forall>ob\<in>set obs. pointersSet ob"
    and "\<forall>d\<in>set ds. \<exists>ob\<in>set obs. Matches (resolveSelf g d) ob = Some True"
  shows "\<exists>rs. rulesToCreate g ds obs = Some ([], rs) \<and> length rs = length ds"
  using assms(2)
proof (induction ds)
  case Nil
  then show ?case by simp
next
  case (Cons d ds)
  then obtain rs where rs: "rulesToCreate g ds obs = Some ([], rs)" "length rs = length ds"
    by auto
  from Cons.prems obtain ob where "ob \<in> set obs" "Matches (resolveSelf g d) ob = Some True"
    by auto
  with findMatch_found [OF assms(1)] obtain ob' where "findMatch (resolveSelf g d) obs = Some (Some ob')"
    by blast
  with rs show ?case by simp
qed

subsection \<open>The calls of the reconciler\<close>

lemma issueInOrder_append:
  "issueInOrder c (xs @ ys) w =
     (case issueInOrder c xs w of (Some e, w1) \<Rightarrow> (Some e, w1) | (None, w1) \<Rightarrow> issueInOrder c ys w1)"
  by (induction xs arbitrary: w) (auto split: prod.splits option.splits)

lemma issueInOrder_log:
  "issueInOrder c xs w = (err, w1) \<Longrightarrow>
   \<exists>n\<le>length xs. snd w1 = snd w @ take n xs \<and> (err = None \<longrightarrow> n = length xs) \<and> (err \<noteq> None \<longrightarrow> 0 < n)"
proof (induction xs arbitrary: w)
  case Nil
  then show ?case by auto
next
  case (Cons x xs)
  show ?case
  proof (cases "perform c x (fst w)")
    case (Pair r s1)
    show ?thesis
    proof (cases r)
      case None
      with Pair Cons.prems have "issueInOrder c xs (s1, snd w @ [x]) = (err, w1)" by simp
      from Cons.IH [OF this] obtain n where "n \<le> length xs" "snd w1 = (snd w @ [x]) @ take n xs"
        "err = None \<longrightarrow> n = length xs" by auto
      then show ?thesis by (intro exI [of _ "Suc n"]) auto
    next
      case (Some e)
      with Pair Cons.prems show ?thesis by (intro exI [of _ "Suc 0"]) auto
    qed
  qed
qed

lemma issueInOrder_failure:
  "issueInOrder c xs w = (Some e, w1) \<Longrightarrow>
   \<exists>k s e'. k < length xs \<and>
     issueInOrder c (take k xs) w = (None, (s, snd w @ take k xs)) \<and>
     perform c (xs ! k) s = (Some e', fst w1) \<and> e = ClientError e' \<and>
     snd w1 = snd w @ take (Suc k) xs"
proof (induction xs arbitrary: w)
  case Nil
  then show ?case by simp
next
  case (Cons x xs)
  obtain r s1 where p: "perform c x (fst w) = (r, s1)" by (cases "perform c x (fst w)")
  show ?case
  proof (cases r)
    case (Some e')
    with p Cons.prems have "e = ClientError e'" "w1 = (s1, snd w @ [x])" by auto
    with p Some show ?thesis
      by (intro exI [of _ 0] exI [of _ "fst w"] exI [of _ e']) simp
  next
    case None
    with p Cons.prems have "issueInOrder c xs (s1, snd w @ [x]) = (Some e, w1)" by simp
    from Cons.IH [OF this] obtain k s e' where
      k: "k < length xs"
      "issueInOrder c (take k xs) (s1, snd w @ [x]) = (None, (s, (snd w @ [x]) @ take k xs))"
      "perform c (xs ! k) s = (Some e', fst w1)" "e = ClientError e'"
      "snd w1 = (snd w @ [x]) @ take (Suc k) xs"
      by auto
    with p None show ?thesis
      by (intro exI [of _ "Suc k"] exI [of _ s] exI [of _ e']) simp
  qed
qed

lemma deleteRules_issue:
  "deleteRules c ids w = issueInOrder c (map DeleteSecGroupRuleCall ids) w"
  by (induction ids arbitrary: w)
    (auto simp: doDeleteSecGroupRule_def split: prod.splits option.splits)

lemma createRules_issue:
  "createRules c g cs acc w = ((rec, err), w1) \<Longrightarrow>
   issueInOrder c (map (\<lambda>r. CreateSecGroupRuleCall (ruleCreateOpts g (resolveSelf g r))) cs) w = (err, w1)"
  by (induction cs arbitrary: acc w)
    (auto simp: createRule_def doCreateSecGroupRule_def sumError_def split: prod.splits option.splits sum.splits)

lemma createRule_matches:
  assumes "createReturnsRequested c" and "createRule c g r w = ((newRule, None), w1)"
  shows "Matches r newRule = Some True"
proof -
  from assms(2) obtain rule s1 where cr: "CreateSecGroupRule c (ruleCreateOpts g r) (fst w) = (Inr rule, s1)"
    and nr: "newRule = convertOSSecGroupRuleToConfigSecGroupRule rule"
    by (auto simp: createRule_def doCreateSecGroupRule_def sumError_def split: prod.splits sum.splits)
  from assms(1) cr have
    "osDescription rule = coDescription (ruleCreateOpts g r) \<and> osDirection rule = coDirection (ruleCreateOpts g r) \<and>
     osEtherType rule = coEtherType (ruleCreateOpts g r) \<and> osPortRangeMin rule = coPortRangeMin (ruleCreateOpts g r) \<and>
     osPortRangeMax rule = coPortRangeMax (ruleCreateOpts g r) \<and> osProtocol rule = coProtocol (ruleCreateOpts g r) \<and>
     osRemoteGroupID rule = coRemoteGroupID (ruleCreateOpts g r) \<and> osRemoteIPPrefix rule = coRemoteIPPrefix (ruleCreateOpts g r)"
    unfolding createReturnsRequested_def by blast
  with nr show ?thesis
    by (simp add: Matches_True_iff convertOSSecGroupRuleToConfigSecGroupRule_def ruleCreateOpts_def)
qed

lemma createRules_created:
  assumes "createReturnsRequested c"
  shows "createRules c g cs acc w = ((rec, None), w1) \<Longrightarrow>
   \<exists>created. rec = acc @ created \<and>
     list_all2 (\<lambda>d ob. Matches (resolveSelf g d) ob = Some True) cs created"
proof (induction cs arbitrary: acc w)
  case Nil
  then show ?case by simp
next
  case (Cons d cs)
  from Cons.prems obtain newRule w2 where
    one: "createRule c g (resolveSelf g d) w = ((newRule, None), w2)"
    and rest: "createRules c g cs (acc @ [newRule]) w2 = ((rec, None), w1)"
    by (auto split: prod.splits option.splits)
  from Cons.IH [OF rest] obtain created where "rec = (acc @ [newRule]) @ created"
    "list_all2 (\<lambda>d ob. Matches (resolveSelf g d) ob = Some True) cs created" by blast
  with createRule_matches [OF assms one] show ?case
    by (intro exI [of _ "newRule # created"]) simp
qed

lemma createRules_failed:
  "createRules c g cs acc w = ((rec, Some e), w1) \<Longrightarrow> rec \<noteq> [] \<or> acc = []"
  by (induction cs arbitrary: acc w) (auto split: prod.splits option.splits)

lemma rulesToCreate_defined:
  "rulesToCreate g ds obs = Some p \<Longrightarrow> \<forall>d\<in>set ds. findMatch (resolveSelf g d) obs \<noteq> None"
  by (induction ds arbitrary: p) (auto split: option.splits)

lemma findMatch_satisfied:
  "findMatch (resolveSelf g d) obs \<noteq> None \<Longrightarrow>
   satisfied g obs d \<longleftrightarrow> findMatch (resolveSelf g d) obs \<noteq> Some None"
proof (cases "findMatch (resolveSelf g d) obs")
  case None
  assume "findMatch (resolveSelf g d) obs \<noteq> None"
  with None show ?thesis by simp
next
  case (Some m)
  show ?thesis
  proof (cases m)
    case None
    with Some findMatch_None [of "resolveSelf g d" obs] show ?thesis
      by (auto simp: satisfied_def)
  next
    case (Some ob)
    with \<open>findMatch (resolveSelf g d) obs = Some m\<close> findMatch_Some [of "resolveSelf g d" obs ob]
    show ?thesis by (auto simp: satisfied_def)
  qed
qed

lemma rulesToCreate_sets:
  assumes "rulesToCreate g ds obs = Some (cs, rs)"
  shows "cs = filter (\<lambda>d. \<not> satisfied g obs d) ds"
    and "list_all2 (\<lambda>d ob. ob \<in> set obs \<and> Matches (resolveSelf g d) ob = Some True)
           (filter (satisfied g obs) ds) rs"
proof -
  have def: "\<forall>d\<in>set ds. findMatch (resolveSelf g d) obs \<noteq> None"
    using rulesToCreate_defined [OF assms] .
  have f1: "filter (\<lambda>d. findMatch (resolveSelf g d) obs = Some None) ds = filter (\<lambda>d. \<not> satisfied g obs d) ds"
    by (rule filter_cong) (use def findMatch_satisfied in auto)
  have f2: "filter (\<lambda>d. findMatch (resolveSelf g d) obs \<noteq> Some None) ds = filter (satisfied g obs) ds"
    by (rule filter_cong) (use def findMatch_satisfied in auto)
  from rulesToCreate_lists [OF assms] f1 show "cs = filter (\<lambda>d. \<not> satisfied g obs d) ds" by simp
  from rulesToCreate_lists [OF assms] f2
  have "list_all2 (\<lambda>d ob. findMatch (resolveSelf g d) obs = Some (Some ob)) (filter (satisfied g obs) ds) rs"
    by simp
  then show "list_all2 (\<lambda>d ob. ob \<in> set obs \<and> Matches (resolveSelf g d) ob = Some True)
           (filter (satisfied g obs) ds) rs"
    by (rule list_all2_mono) (use findMatch_Some in blast)
qed

lemma reconcile_cases:
  assumes "reconcileGroupRules c desired observed w = (Some (status, err), w1)"
  obtains toDelete toCreate matched e where
    "rulesToDelete (gsID observed) (Rules desired) (gsRules observed) = Some toDelete"
    "rulesToCreate (gsID observed) (Rules desired) (gsRules observed) = Some (toCreate, matched)"
    "deleteRules c toDelete w = (Some e, w1)" "err = Some e" "status = emptySecurityGroupStatus"
  | toDelete toCreate matched w2 reconciledRules where
    "rulesToDelete (gsID observed) (Rules desired) (gsRules observed) = Some toDelete"
    "rulesToCreate (gsID observed) (Rules desired) (gsRules observed) = Some (toCreate, matched)"
    "deleteRules c toDelete w = (None, w2)"
    "createRules c (gsID observed) toCreate matched w2 = ((reconciledRules, err), w1)"
    "status = (if err \<noteq> None \<or> reconciledRules = [] then emptySecurityGroupStatus
               else observed\<lparr>gsRules := reconciledRules\<rparr>)"
  using assms unfolding reconcileGroupRules_def
  by (auto split: option.splits prod.splits if_splits)

lemma reconcile_effect:
  assumes "reconcileGroupRules c desired observed w = (Some (status, err), w1)"
  shows "\<exists>toDelete toCreate matched.
     rulesToDelete (gsID observed) (Rules desired) (gsRules observed) = Some toDelete \<and>
     rulesToCreate (gsID observed) (Rules desired) (gsRules observed) = Some (toCreate, matched) \<and>
     issueInOrder c (plannedCalls (gsID observed) toDelete toCreate) w = (err, w1)"
  using assms
proof (cases rule: reconcile_cases)
  case (1 toDelete toCreate matched e)
  then show ?thesis
    by (auto simp: plannedCalls_def issueInOrder_append deleteRules_issue)
next
  case (2 toDelete toCreate matched w2 reconciledRules)
  from createRules_issue [OF 2(4)] 2(1,2,3) show ?thesis
    by (auto simp: plannedCalls_def issueInOrder_append deleteRules_issue)
qed

lemma reconcile_panic:
  "reconcileGroupRules c desired observed w = (None, w1) \<Longrightarrow> w1 = w"
  unfolding reconcileGroupRules_def
  by (auto split: option.splits prod.splits if_splits)

lemma reconcile_result:
  assumes "createReturnsRequested c"
    and "reconcileGroupRules c desired observed w = (Some (status, None), w1)"
  shows "\<exists>toCreate matched created.
     rulesToCreate (gsID observed) (Rules desired) (gsRules observed) = Some (toCreate, matched) \<and>
     gsRules status = matched @ created \<and>
     list_all2 (\<lambda>d ob. Matches (resolveSelf (gsID observed) d) ob = Some True) toCreate created \<and>
     (status = emptySecurityGroupStatus \<or> status = observed\<lparr>gsRules := matched @ created\<rparr>)"
  using assms(2)
proof (cases rule: reconcile_cases)
  case (1 toDelete toCreate matched e)
  then show ?thesis by simp
next
  case (2 toDelete toCreate matched w2 reconciledRules)
  from createRules_created [OF assms(1) 2(4)] obtain created where
    "reconciledRules = matched @ created"
    "list_all2 (\<lambda>d ob. Matches (resolveSelf (gsID observed) d) ob = Some True) toCreate created"
    by blast
  with 2(2,5) show ?thesis
    by (cases "reconciledRules = []") (auto simp: emptySecurityGroupStatus_def)
qed

subsection \<open>Examples on the provider in memory\<close>


lemmas example_defs =
  exampleDesired_def exampleObserved_def exampleReconciled_def exampleCalls_def
  sshRule_def dnsRule_def observedRule_def ruleStructure_def remoteGroupIDSelf_def

lemmas run_defs =
  reconcileGroupRules_def Matches_def eqDeref_def resolveSelf_def
  createRule_def doCreateSecGroupRule_def doDeleteSecGroupRule_def sumError_def
  ruleCreateOpts_def convertOSSecGroupRuleToConfigSecGroupRule_def
  mockClient_def mockRule_def emptySecurityGroupStatus_def

lemma mock_createReturnsRequested: "createReturnsRequested mockClient"
  by (auto simp: createReturnsRequested_def mockClient_def mockRule_def split: if_splits)

lemma example_run:
  "reconcileGroupRules mockClient exampleDesired exampleObserved ([], []) =
     (Some (exampleReconciled, None), ([], exampleCalls))"
  by (simp add: example_defs run_defs)

subsection \<open>Convergence and idempotence\<close>





lemma list_all2_right: "list_all2 P xs ys \<Longrightarrow> y \<in> set ys \<Longrightarrow> \<exists>x\<in>set xs. P x y"
  by (induction rule: list_all2_induct) auto

lemma list_all2_left: "list_all2 P xs ys \<Longrightarrow> x \<in> set xs \<Longrightarrow> \<exists>y\<in>set ys. P x y"
  by (induction rule: list_all2_induct) auto

lemma second_pass:
  assumes p1: "\<forall>ob\<in>set obs. pointersSet ob"
    and p2: "\<forall>ob\<in>set obs. \<exists>d\<in>set ds. Matches (resolveSelf g d) ob = Some True"
    and p3: "\<forall>d\<in>set ds. \<exists>ob\<in>set obs. Matches (resolveSelf g d) ob = Some True"
  shows "rulesToDelete g ds obs = Some [] \<and> (\<exists>rs. rulesToCreate g ds obs = Some ([], rs))"
proof -
  from rulesToDelete_total [OF p1] obtain ids where ids: "rulesToDelete g ds obs = Some ids"
    by blast
  have "filter (\<lambda>ob. \<forall>d\<in>set ds. Matches (resolveSelf g d) ob \<noteq> Some True) obs = []"
    using p2 by (auto simp: filter_empty_conv)
  with rulesToDelete_filter [OF ids] ids have "rulesToDelete g ds obs = Some []" by simp
  with rulesToCreate_all_matched [OF p1 p3] show ?thesis by blast
qed

lemma no_change_run:
  assumes "rulesToDelete (gsID observed) (Rules desired) (gsRules observed) = Some []"
    and "rulesToCreate (gsID observed) (Rules desired) (gsRules observed) = Some ([], rs)"
  shows "\<exists>status. reconcileGroupRules c desired observed w = (Some (status, None), w)"
  using assms by (simp add: reconcileGroupRules_def)

text \<open>
  C2. After a pass that returned the status \<open>status\<close> without an error, a second pass
  with the same desired rules and \<open>status\<close> as the observed state has an empty deletion
  list and an empty creation list, and it returns without an error leaving the world as
  it was: it issues no call at all.
\<close>

theorem reconcileGroupRules_idempotent:
  assumes "createReturnsRequested c"
    and "reconcileGroupRules c desired observed w = (Some (status, None), w1)"
  shows "\<exists>matched.
     rulesToDelete (gsID status) (Rules desired) (gsRules status) = Some [] \<and>
     rulesToCreate (gsID status) (Rules desired) (gsRules status) = Some ([], matched) \<and>
     (\<forall>w2. \<exists>status2. reconcileGroupRules c desired status w2 = (Some (status2, None), w2))"
proof -
  let ?g = "gsID observed" and ?ds = "Rules desired" and ?obs = "gsRules observed"
  from reconcile_result [OF assms] obtain toCreate matched created where
    rc: "rulesToCreate ?g ?ds ?obs = Some (toCreate, matched)"
    and rules: "gsRules status = matched @ created"
    and created: "list_all2 (\<lambda>d ob. Matches (resolveSelf ?g d) ob = Some True) toCreate created"
    and st: "status = emptySecurityGroupStatus \<or> status = observed\<lparr>gsRules := matched @ created\<rparr>"
    by blast
  note sets = rulesToCreate_sets [OF rc]
  let ?M = "\<lambda>d ob. Matches (resolveSelf ?g d) ob = Some True"
  have m2: "list_all2 ?M (filter (satisfied ?g ?obs) ?ds) matched"
    using sets(2) by (rule list_all2_mono) simp
  have c2: "list_all2 ?M (filter (\<lambda>d. \<not> satisfied ?g ?obs d) ?ds) created"
    using created sets(1) by simp
  have bwd: "\<exists>d\<in>set ?ds. ?M d ob" if "ob \<in> set (gsRules status)" for ob
  proof -
    from that rules have "ob \<in> set matched \<or> ob \<in> set created" by auto
    then show ?thesis
      using list_all2_right [OF m2, of ob] list_all2_right [OF c2, of ob] by auto
  qed
  have fwd: "\<exists>ob\<in>set (gsRules status). ?M d ob" if "d \<in> set ?ds" for d
  proof (cases "satisfied ?g ?obs d")
    case True
    with that have "d \<in> set (filter (satisfied ?g ?obs) ?ds)" by simp
    from list_all2_left [OF m2 this] rules show ?thesis by auto
  next
    case False
    with that have "d \<in> set (filter (\<lambda>d. \<not> satisfied ?g ?obs d) ?ds)" by simp
    from list_all2_left [OF c2 this] rules show ?thesis by auto
  qed
  have p1: "\<forall>ob\<in>set (gsRules status). pointersSet ob"
    using bwd Matches_True_pointersSet by blast
  have len: "length (gsRules status) = length ?ds"
    using list_all2_lengthD [OF m2] list_all2_lengthD [OF c2] rules
      sum_length_filter_compl [of "satisfied ?g ?obs" ?ds] by simp
  have g: "gsRules status \<noteq> [] \<Longrightarrow> gsID status = ?g"
    using st rules by (auto simp: emptySecurityGroupStatus_def)
  have p2: "\<forall>ob\<in>set (gsRules status). \<exists>d\<in>set ?ds. Matches (resolveSelf (gsID status) d) ob = Some True"
    using bwd g by (cases "gsRules status = []") auto
  have p3: "\<forall>d\<in>set ?ds. \<exists>ob\<in>set (gsRules status). Matches (resolveSelf (gsID status) d) ob = Some True"
  proof (cases "gsRules status = []")
    case True
    with len show ?thesis by simp
  next
    case False
    with fwd g show ?thesis by auto
  qed
  from second_pass [OF p1 p2 p3] obtain rs where
    d: "rulesToDelete (gsID status) ?ds (gsRules status) = Some []"
    and r: "rulesToCreate (gsID status) ?ds (gsRules status) = Some ([], rs)"
    by blast
  from no_change_run [OF d r] d r show ?thesis by blast
qed

theorem reconcileGroupRules_idempotent_witness:
  "createReturnsRequested mockClient \<and>
   reconcileGroupRules mockClient exampleDesired exampleObserved ([], []) =
     (Some (exampleReconciled, None), ([], exampleCalls)) \<and>
   (\<exists>matched.
     rulesToDelete (gsID exampleReconciled) (Rules exampleDesired) (gsRules exampleReconciled) = Some [] \<and>
     rulesToCreate (gsID exampleReconciled) (Rules exampleDesired) (gsRules exampleReconciled) = Some ([], matched) \<and>
     (\<forall>w2. \<exists>status2. reconcileGroupRules mockClient exampleDesired exampleReconciled w2 = (Some (status2, None), w2)))"
  using reconcileGroupRules_idempotent [OF mock_createReturnsRequested example_run]
    mock_createReturnsRequested example_run
  by blast

subsection \<open>The empty result, self references and the order of the calls\<close>


lemma example_locked_run:
  "reconcileGroupRules mockClient exampleDesired exampleLocked ([], []) =
     (Some (emptySecurityGroupStatus, Some (ClientError ''rule is locked'')),
      ([], [DeleteSecGroupRuleCall ''r2'', DeleteSecGroupRuleCall ''locked'']))"
  by (simp add: example_defs exampleLocked_def run_defs)

lemma example_no_rules_run:
  "reconcileGroupRules mockClient exampleNoRules exampleObserved ([], []) =
     (Some (emptySecurityGroupStatus, None),
      ([], [DeleteSecGroupRuleCall ''r1'', DeleteSecGroupRuleCall ''r2'']))"
  by (simp add: example_defs exampleNoRules_def run_defs)

text \<open>
  C6. Whenever \<open>reconcileGroupRules\<close> returns a status with no rules, that status is the
  zero value (empty ID, empty name, no rules); a status that is not the zero value is
  the observed group with a non-empty rule list. In particular, when no desired rule is
  matched and none is to be created, a pass without an error returns the zero value.
\<close>

theorem reconcileGroupRules_empty_result:
  assumes "reconcileGroupRules c desired observed w = (Some (status, err), w1)"
  shows "(gsRules status = [] \<longrightarrow> status = emptySecurityGroupStatus) \<and>
         (status \<noteq> emptySecurityGroupStatus \<longrightarrow>
            err = None \<and> gsRules status \<noteq> [] \<and> status = observed\<lparr>gsRules := gsRules status\<rparr>) \<and>
         (\<exists>toCreate matched.
            rulesToCreate (gsID observed) (Rules desired) (gsRules observed) = Some (toCreate, matched) \<and>
            (toCreate = [] \<and> matched = [] \<and> err = None \<longrightarrow> status = emptySecurityGroupStatus))"
  using assms
proof (cases rule: reconcile_cases)
  case (1 toDelete toCreate matched e)
  then show ?thesis by simp
next
  case (2 toDelete toCreate matched w2 reconciledRules)
  have "toCreate = [] \<and> matched = [] \<longrightarrow> reconciledRules = []"
    using 2(4) by auto
  with 2(2,5) show ?thesis
    by (cases "err \<noteq> None \<or> reconciledRules = []") auto
qed

theorem reconcileGroupRules_empty_result_witness:
  "reconcileGroupRules mockClient exampleNoRules exampleObserved ([], []) =
     (Some (emptySecurityGroupStatus, None),
      ([], [DeleteSecGroupRuleCall ''r1'', DeleteSecGroupRuleCall ''r2''])) \<and>
   gsRules emptySecurityGroupStatus = [] \<and>
   gsID emptySecurityGroupStatus = [] \<and> gsName emptySecurityGroupStatus = [] \<and>
   emptySecurityGroupStatus \<noteq> exampleObserved\<lparr>gsRules := []\<rparr>"
  using reconcileGroupRules_empty_result [OF example_no_rules_run] example_no_rules_run
  by (simp add: emptySecurityGroupStatus_def exampleObserved_def)

lemma reconcile_create_calls:
  assumes "reconcileGroupRules c desired observed (s, []) = (res, w1)"
    and "CreateSecGroupRuleCall opts \<in> set (snd w1)"
  shows "\<exists>d\<in>set (Rules desired). opts = ruleCreateOpts (gsID observed) (resolveSelf (gsID observed) d)"
proof (cases res)
  case None
  with assms reconcile_panic [of c desired observed "(s, [])" w1] show ?thesis by simp
next
  case (Some p)
  obtain status err where p: "p = (status, err)" by (cases p)
  from reconcile_effect [of c desired observed "(s, [])" status err w1] assms(1) Some p
  obtain toDelete toCreate matched where
    rc: "rulesToCreate (gsID observed) (Rules desired) (gsRules observed) = Some (toCreate, matched)"
    and io: "issueInOrder c (plannedCalls (gsID observed) toDelete toCreate) (s, []) = (err, w1)"
    by auto
  from issueInOrder_log [OF io] obtain n where
    "snd w1 = take n (plannedCalls (gsID observed) toDelete toCreate)" by auto
  with assms(2) have "CreateSecGroupRuleCall opts \<in> set (plannedCalls (gsID observed) toDelete toCreate)"
    by (auto dest: in_set_takeD)
  then obtain d where "d \<in> set toCreate"
    "opts = ruleCreateOpts (gsID observed) (resolveSelf (gsID observed) d)"
    by (auto simp: plannedCalls_def)
  with rulesToCreate_lists [OF rc] show ?thesis by auto
qed

text \<open>
  C7. A desired rule whose remote group is \<open>self\<close>, resolved against the observed group
  \<open>g\<close>, matches an observed rule exactly when that rule's remote group is \<open>g\<close> and the
  other seven fields are equal. The ID of the observed rule plays no part in \<open>Matches\<close>.
  Every \<open>CreateSecGroupRule\<close> call of a pass is made for a desired rule with \<open>self\<close>
  resolved: for a \<open>self\<close> rule it carries the observed group's ID, and no call carries
  the literal \<open>self\<close> (unless that literal is the observed group's own ID).
\<close>

theorem self_reference_resolution:
  "(RemoteGroupID d = remoteGroupIDSelf \<longrightarrow>
      (Matches (resolveSelf g d) ob = Some True \<longleftrightarrow>
         rsRemoteGroupID ob = Some g \<and>
         rsDescription ob = Some (Description d) \<and>
         rsDirection ob = Direction d \<and>
         rsEtherType ob = Some (EtherType d) \<and>
         rsPortRangeMin ob = Some (PortRangeMin d) \<and>
         rsPortRangeMax ob = Some (PortRangeMax d) \<and>
         rsProtocol ob = Some (Protocol d) \<and>
         rsRemoteIPPrefix ob = Some (RemoteIPPrefix d))) \<and>
   Matches r (ob\<lparr>rsID := i\<rparr>) = Matches r ob \<and>
   (reconcileGroupRules c desired observed (s, []) = (res, w1) \<longrightarrow>
      (\<forall>opts. CreateSecGroupRuleCall opts \<in> set (snd w1) \<longrightarrow>
         (\<exists>d'\<in>set (Rules desired).
            opts = ruleCreateOpts (gsID observed) (resolveSelf (gsID observed) d') \<and>
            (RemoteGroupID d' = remoteGroupIDSelf \<longrightarrow> coRemoteGroupID opts = gsID observed)) \<and>
         (gsID observed \<noteq> remoteGroupIDSelf \<longrightarrow> coRemoteGroupID opts \<noteq> remoteGroupIDSelf)))"
proof (intro conjI impI allI)
  assume "RemoteGroupID d = remoteGroupIDSelf"
  then show "Matches (resolveSelf g d) ob = Some True \<longleftrightarrow>
         rsRemoteGroupID ob = Some g \<and>
         rsDescription ob = Some (Description d) \<and>
         rsDirection ob = Direction d \<and>
         rsEtherType ob = Some (EtherType d) \<and>
         rsPortRangeMin ob = Some (PortRangeMin d) \<and>
         rsPortRangeMax ob = Some (PortRangeMax d) \<and>
         rsProtocol ob = Some (Protocol d) \<and>
         rsRemoteIPPrefix ob = Some (RemoteIPPrefix d)"
    unfolding Matches_True_iff by (auto simp: resolveSelf_def)
next
  show "Matches r (ob\<lparr>rsID := i\<rparr>) = Matches r ob"
    by (simp add: Matches_def)
next
  fix opts
  assume run: "reconcileGroupRules c desired observed (s, []) = (res, w1)"
    and call: "CreateSecGroupRuleCall opts \<in> set (snd w1)"
  from reconcile_create_calls [OF run call] obtain d' where
    d': "d' \<in> set (Rules desired)"
    "opts = ruleCreateOpts (gsID observed) (resolveSelf (gsID observed) d')" by blast
  then show "\<exists>d'\<in>set (Rules desired).
            opts = ruleCreateOpts (gsID observed) (resolveSelf (gsID observed) d') \<and>
            (RemoteGroupID d' = remoteGroupIDSelf \<longrightarrow> coRemoteGroupID opts = gsID observed)"
    by (auto simp: ruleCreateOpts_def resolveSelf_def)
  assume "gsID observed \<noteq> remoteGroupIDSelf"
  with d' show "coRemoteGroupID opts \<noteq> remoteGroupIDSelf"
    by (auto simp: ruleCreateOpts_def resolveSelf_def)
qed

theorem self_reference_resolution_witness:
  "RemoteGroupID (sshRule remoteGroupIDSelf) = remoteGroupIDSelf \<and>
   Matches (resolveSelf ''g1'' (sshRule remoteGroupIDSelf)) (observedRule ''r7'' (sshRule ''g1'')) = Some True \<and>
   Matches (resolveSelf ''g1'' (sshRule remoteGroupIDSelf)) (observedRule ''r7'' (sshRule remoteGroupIDSelf)) = Some False \<and>
   reconcileGroupRules mockClient exampleDesired exampleObserved ([], []) =
     (Some (exampleReconciled, None), ([], exampleCalls)) \<and>
   CreateSecGroupRuleCall (ruleCreateOpts ''g1'' (sshRule ''g1'')) \<in> set exampleCalls \<and>
   coRemoteGroupID (ruleCreateOpts ''g1'' (sshRule ''g1'')) = gsID exampleObserved \<and>
   coRemoteGroupID (ruleCreateOpts ''g1'' (sshRule ''g1'')) \<noteq> remoteGroupIDSelf"
  using self_reference_resolution [of "sshRule remoteGroupIDSelf" "''g1''" "observedRule ''r7'' (sshRule ''g1'')"
      "sshRule remoteGroupIDSelf" "''r7''" mockClient exampleDesired exampleObserved "[]"
      "Some (exampleReconciled, None)" "([], exampleCalls)"]
    example_run
  by (simp add: example_defs run_defs)

text \<open>
  C8. The calls of one pass are those of the reference behaviour \<open>issueInOrder\<close> on the
  planned calls: the deletions (one for each observed rule that no desired rule matches)
  followed by the creations (one for each desired rule that is not satisfied). The calls
  logged are a prefix of that list, the whole list when there is no error. On an error
  the pass returns the zero status and the error of the call that failed: the calls
  before it succeeded, it is the last call issued, and the provider is left in the state
  that call left it in.
\<close>

theorem reconcileGroupRules_call_order:
  assumes "reconcileGroupRules c desired observed w = (Some (status, err), w1)"
  shows "\<exists>toDelete toCreate matched n.
     rulesToDelete (gsID observed) (Rules desired) (gsRules observed) = Some toDelete \<and>
     toDelete = map rsID (filter (\<lambda>ob. \<forall>d\<in>set (Rules desired).
                   Matches (resolveSelf (gsID observed) d) ob \<noteq> Some True) (gsRules observed)) \<and>
     rulesToCreate (gsID observed) (Rules desired) (gsRules observed) = Some (toCreate, matched) \<and>
     toCreate = filter (\<lambda>d. \<not> satisfied (gsID observed) (gsRules observed) d) (Rules desired) \<and>
     issueInOrder c (plannedCalls (gsID observed) toDelete toCreate) w = (err, w1) \<and>
     n \<le> length (plannedCalls (gsID observed) toDelete toCreate) \<and>
     snd w1 = snd w @ take n (plannedCalls (gsID observed) toDelete toCreate) \<and>
     (err = None \<longrightarrow> n = length (plannedCalls (gsID observed) toDelete toCreate)) \<and>
     (err \<noteq> None \<longrightarrow> 0 < n \<and> status = emptySecurityGroupStatus) \<and>
     (\<forall>e. err = Some e \<longrightarrow>
        (\<exists>k s e'. k < length (plannedCalls (gsID observed) toDelete toCreate) \<and>
           issueInOrder c (take k (plannedCalls (gsID observed) toDelete toCreate)) w =
             (None, (s, snd w @ take k (plannedCalls (gsID observed) toDelete toCreate))) \<and>
           perform c (plannedCalls (gsID observed) toDelete toCreate ! k) s = (Some e', fst w1) \<and>
           e = ClientError e' \<and>
           snd w1 = snd w @ take (Suc k) (plannedCalls (gsID observed) toDelete toCreate)))"
proof -
  from reconcile_effect [OF assms] obtain toDelete toCreate matched where
    rd: "rulesToDelete (gsID observed) (Rules desired) (gsRules observed) = Some toDelete"
    and rc: "rulesToCreate (gsID observed) (Rules desired) (gsRules observed) = Some (toCreate, matched)"
    and io: "issueInOrder c (plannedCalls (gsID observed) toDelete toCreate) w = (err, w1)"
    by blast
  from issueInOrder_log [OF io] obtain n where
    n: "n \<le> length (plannedCalls (gsID observed) toDelete toCreate)"
    "snd w1 = snd w @ take n (plannedCalls (gsID observed) toDelete toCreate)"
    "err = None \<longrightarrow> n = length (plannedCalls (gsID observed) toDelete toCreate)"
    "err \<noteq> None \<longrightarrow> 0 < n"
    by blast
  have e: "err \<noteq> None \<longrightarrow> status = emptySecurityGroupStatus"
    using assms by (cases rule: reconcile_cases) auto
  have f: "\<forall>e. err = Some e \<longrightarrow>
        (\<exists>k s e'. k < length (plannedCalls (gsID observed) toDelete toCreate) \<and>
           issueInOrder c (take k (plannedCalls (gsID observed) toDelete toCreate)) w =
             (None, (s, snd w @ take k (plannedCalls (gsID observed) toDelete toCreate))) \<and>
           perform c (plannedCalls (gsID observed) toDelete toCreate ! k) s = (Some e', fst w1) \<and>
           e = ClientError e' \<and>
           snd w1 = snd w @ take (Suc k) (plannedCalls (gsID observed) toDelete toCreate))"
    using io issueInOrder_failure [of c "plannedCalls (gsID observed) toDelete toCreate" w _ w1]
    by blast
  from rd rulesToDelete_filter [OF rd] rc rulesToCreate_sets(1) [OF rc] io n e f
  show ?thesis by blast
qed

theorem reconcileGroupRules_call_order_witness:
  "reconcileGroupRules mockClient exampleDesired exampleLocked ([], []) =
     (Some (emptySecurityGroupStatus, Some (ClientError ''rule is locked'')),
      ([], [DeleteSecGroupRuleCall ''r2'', DeleteSecGroupRuleCall ''locked''])) \<and>
   rulesToDelete ''g1'' (Rules exampleDesired) (gsRules exampleLocked) = Some [''r2'', ''locked''] \<and>
   rulesToCreate ''g1'' (Rules exampleDesired) (gsRules exampleLocked) = Some (Rules exampleDesired, []) \<and>
   issueInOrder mockClient (plannedCalls ''g1'' [''r2'', ''locked''] (Rules exampleDesired)) ([], []) =
     (Some (ClientError ''rule is locked''),
      ([], [DeleteSecGroupRuleCall ''r2'', DeleteSecGroupRuleCall ''locked'']))"
proof -
  from reconcileGroupRules_call_order [OF example_locked_run] obtain toDelete toCreate matched where
    rd: "rulesToDelete (gsID exampleLocked) (Rules exampleDesired) (gsRules exampleLocked) = Some toDelete"
    and rc: "rulesToCreate (gsID exampleLocked) (Rules exampleDesired) (gsRules exampleLocked) = Some (toCreate, matched)"
    and io: "issueInOrder mockClient (plannedCalls (gsID exampleLocked) toDelete toCreate) ([], []) =
       (Some (ClientError ''rule is locked''),
        ([], [DeleteSecGroupRuleCall ''r2'', DeleteSecGroupRuleCall ''locked'']))"
    by blast
  have g: "gsID exampleLocked = ''g1''" by (simp add: exampleLocked_def)
  from rd have d: "toDelete = [''r2'', ''locked'']"
    by (simp add: example_defs exampleLocked_def run_defs)
  from rc have c: "toCreate = Rules exampleDesired \<and> matched = []"
    by (simp add: example_defs exampleLocked_def run_defs)
  from rd rc io show ?thesis
    unfolding g d using c example_locked_run by simp
qed

subsection \<open>The observed state and the group lifecycle\<close>


text \<open>
  C5. \<open>getSecurityGroupByName\<close> issues one \<open>ListSecGroup\<close> call. An error of the call is
  returned as it is; no group gives the empty status (empty ID) and no error; exactly one
  group gives that group converted, each wire rule converted to a rule status; more than
  one group gives an error whose message ends with the name.
\<close>

theorem getSecurityGroupByName_cardinality:
  "(ListSecGroup c name (fst w) = (Inl e, s1) \<longrightarrow>
      getSecurityGroupByName c name w =
        ((emptySecurityGroupStatus, Some (ClientError e)), (s1, snd w @ [ListSecGroupCall name]))) \<and>
   (ListSecGroup c name (fst w) = (Inr [], s1) \<longrightarrow>
      getSecurityGroupByName c name w =
        ((emptySecurityGroupStatus, None), (s1, snd w @ [ListSecGroupCall name]))) \<and>
   (ListSecGroup c name (fst w) = (Inr [g], s1) \<longrightarrow>
      getSecurityGroupByName c name w =
        ((\<lparr>gsID = osgID g, gsName = osgName g,
           gsRules = map convertOSSecGroupRuleToConfigSecGroupRule (osgRules g)\<rparr>, None),
         (s1, snd w @ [ListSecGroupCall name]))) \<and>
   (ListSecGroup c name (fst w) = (Inr gs, s1) \<and> 1 < length gs \<longrightarrow>
      getSecurityGroupByName c name w =
        ((emptySecurityGroupStatus,
          Some (Errorf (''more than one security group found named: '' @ name))),
         (s1, snd w @ [ListSecGroupCall name]))) \<and>
   gsID emptySecurityGroupStatus = []"
  by (auto simp: getSecurityGroupByName_def doListSecGroup_def sumError_def
      convertOSSecGroupToConfigSecGroup_def emptySecurityGroupStatus_def
      split: list.splits)

theorem getSecurityGroupByName_cardinality_witness:
  "getSecurityGroupByName mockClient ''unreachable'' ([], []) =
     ((emptySecurityGroupStatus, Some (ClientError ''connection refused'')),
      ([], [ListSecGroupCall ''unreachable''])) \<and>
   getSecurityGroupByName mockClient ''worker'' ([exampleGroup ''g0'' ''bastion''], []) =
     ((emptySecurityGroupStatus, None), ([exampleGroup ''g0'' ''bastion''], [ListSecGroupCall ''worker''])) \<and>
   getSecurityGroupByName mockClient ''worker'' ([exampleGroup ''g1'' ''worker''], []) =
     ((\<lparr>gsID = ''g1'', gsName = ''worker'', gsRules = [observedRule ''rule-dns'' dnsRule]\<rparr>, None),
      ([exampleGroup ''g1'' ''worker''], [ListSecGroupCall ''worker''])) \<and>
   getSecurityGroupByName mockClient ''worker''
       ([exampleGroup ''g1'' ''worker'', exampleGroup ''g2'' ''worker''], []) =
     ((emptySecurityGroupStatus, Some (Errorf ''more than one security group found named: worker'')),
      ([exampleGroup ''g1'' ''worker'', exampleGroup ''g2'' ''worker''], [ListSecGroupCall ''worker'']))"
  using getSecurityGroupByName_cardinality [of mockClient "''unreachable''" "([], [])" "''connection refused''" "[]"]
    getSecurityGroupByName_cardinality [of mockClient "''worker''" "([exampleGroup ''g0'' ''bastion''], [])"
      _ "[exampleGroup ''g0'' ''bastion'']"]
    getSecurityGroupByName_cardinality [of mockClient "''worker''" "([exampleGroup ''g1'' ''worker''], [])"
      _ "[exampleGroup ''g1'' ''worker'']" "exampleGroup ''g1'' ''worker''"]
    getSecurityGroupByName_cardinality [of mockClient "''worker''"
      "([exampleGroup ''g1'' ''worker'', exampleGroup ''g2'' ''worker''], [])"
      _ "[exampleGroup ''g1'' ''worker'', exampleGroup ''g2'' ''worker'']" _
      "[exampleGroup ''g1'' ''worker'', exampleGroup ''g2'' ''worker'']"]
  by (simp add: mockClient_def exampleGroup_def mockRule_def ruleCreateOpts_def example_defs
      convertOSSecGroupRuleToConfigSecGroupRule_def)

text \<open>
  C9. When the fetch by name succeeds and finds a group, \<open>createSecurityGroupIfNotExists\<close>
  succeeds and the fetch's \<open>ListSecGroup\<close> call is the only call issued: no group is
  created and no tag replaced. When the fetch finds no group, \<open>deleteSecurityGroup\<close>
  succeeds and again the fetch is the only call: nothing is deleted.
\<close>

theorem group_lifecycle_idempotent:
  assumes "getSecurityGroupByName c name w = ((secGroup, None), w1)"
  shows "(gsID secGroup \<noteq> [] \<longrightarrow> createSecurityGroupIfNotExists c tags name w = (None, w1)) \<and>
         (gsID secGroup = [] \<longrightarrow> deleteSecurityGroup c name w = (None, w1)) \<and>
         snd w1 = snd w @ [ListSecGroupCall name]"
  using assms
  by (auto simp: createSecurityGroupIfNotExists_def deleteSecurityGroup_def
      getSecurityGroupByName_def doListSecGroup_def split: prod.splits sum.splits list.splits)

theorem group_lifecycle_idempotent_witness:
  "createSecurityGroupIfNotExists mockClient [''tag''] ''worker'' ([exampleGroup ''g1'' ''worker''], []) =
     (None, ([exampleGroup ''g1'' ''worker''], [ListSecGroupCall ''worker''])) \<and>
   deleteSecurityGroup mockClient ''worker'' ([exampleGroup ''g0'' ''bastion''], []) =
     (None, ([exampleGroup ''g0'' ''bastion''], [ListSecGroupCall ''worker'']))"
proof -
  have a: "getSecurityGroupByName mockClient ''worker'' ([exampleGroup ''g1'' ''worker''], []) =
     ((convertOSSecGroupToConfigSecGroup (exampleGroup ''g1'' ''worker''), None),
      ([exampleGroup ''g1'' ''worker''], [ListSecGroupCall ''worker'']))"
    by (simp add: getSecurityGroupByName_def doListSecGroup_def sumError_def mockClient_def exampleGroup_def)
  have b: "getSecurityGroupByName mockClient ''worker'' ([exampleGroup ''g0'' ''bastion''], []) =
     ((emptySecurityGroupStatus, None), ([exampleGroup ''g0'' ''bastion''], [ListSecGroupCall ''worker'']))"
    by (simp add: getSecurityGroupByName_def doListSecGroup_def sumError_def mockClient_def exampleGroup_def)
  from group_lifecycle_idempotent [OF a, of "[''tag'']"] group_lifecycle_idempotent [OF b]
  show ?thesis
    by (simp add: convertOSSecGroupToConfigSecGroup_def exampleGroup_def emptySecurityGroupStatus_def)
qed

subsection \<open>Nil pointers\<close>

lemma rulesToCreate_total:
  "\<forall>ob\<in>set obs. pointersSet ob \<Longrightarrow> \<exists>p. rulesToCreate g ds obs = Some p"
proof (induction ds)
  case Nil
  then show ?case by simp
next
  case (Cons d ds)
  then obtain p where "rulesToCreate g ds obs = Some p" by blast
  moreover from findMatch_total [OF Cons.prems] obtain m where
    "findMatch (resolveSelf g d) obs = Some m" by blast
  ultimately show ?case by (cases p) simp
qed

lemma reconcile_no_panic:
  assumes "\<forall>ob\<in>set (gsRules observed). pointersSet ob"
  shows "fst (reconcileGroupRules c desired observed w) \<noteq> None"
proof -
  from rulesToDelete_total [OF assms] obtain ids where
    "rulesToDelete (gsID observed) (Rules desired) (gsRules observed) = Some ids" by blast
  moreover from rulesToCreate_total [OF assms] obtain p where
    "rulesToCreate (gsID observed) (Rules desired) (gsRules observed) = Some p" by blast
  ultimately show ?thesis
    by (cases p) (simp add: reconcileGroupRules_def split: prod.splits option.splits)
qed

lemma getSecurityGroupByName_pointersSet:
  assumes "getSecurityGroupByName c name w = ((observed, err), w1)"
  shows "\<forall>ob\<in>set (gsRules observed). pointersSet ob"
  using assms
  by (auto simp: getSecurityGroupByName_def convertOSSecGroupToConfigSecGroup_def
      emptySecurityGroupStatus_def convert_pointersSet split: prod.splits sum.splits list.splits)

text \<open>
  C10, as amended. \<open>Matches\<close> dereferences the pointer fields from left to right inside a
  chain of \<open>&&\<close>: it panics exactly when a pointer field is nil and every comparison before
  it has succeeded. A rule status made by \<open>convertOSSecGroupRuleToConfigSecGroupRule\<close>
  has its seven pointers set, so \<open>Matches\<close> does not panic on it; every rule of a status
  returned by \<open>getSecurityGroupByName\<close> is such a rule, and \<open>reconcileGroupRules\<close> does
  not panic on that status.
\<close>

theorem Matches_partial_but_safe:
  "(Matches r other = None \<longleftrightarrow>
     rsDescription other = None \<or>
     (rsDescription other = Some (Description r) \<and> Direction r = rsDirection other \<and>
      (rsEtherType other = None \<or>
       (rsEtherType other = Some (EtherType r) \<and>
        (rsPortRangeMin other = None \<or>
         (rsPortRangeMin other = Some (PortRangeMin r) \<and>
          (rsPortRangeMax other = None \<or>
           (rsPortRangeMax other = Some (PortRangeMax r) \<and>
            (rsProtocol other = None \<or>
             (rsProtocol other = Some (Protocol r) \<and>
              (rsRemoteGroupID other = None \<or>
               (rsRemoteGroupID other = Some (RemoteGroupID r) \<and>
                rsRemoteIPPrefix other = None)))))))))))) \<and>
   pointersSet (convertOSSecGroupRuleToConfigSecGroupRule rule) \<and>
   Matches r (convertOSSecGroupRuleToConfigSecGroupRule rule) \<noteq> None \<and>
   (getSecurityGroupByName c name w = ((observed, err), w1) \<longrightarrow>
      (\<forall>ob\<in>set (gsRules observed). pointersSet ob) \<and>
      fst (reconcileGroupRules c2 desired observed w2) \<noteq> None)"
  using Matches_None_iff [of r other] convert_pointersSet [of rule]
    Matches_pointersSet [OF convert_pointersSet, of r rule]
    getSecurityGroupByName_pointersSet [of c name w observed err w1]
    reconcile_no_panic [of observed c2 desired w2]
  by blast

text \<open>
  C10 as first stated has \<open>Matches\<close> panic on every observed rule with a nil
  field. This rule has a nil \<open>EtherType\<close>, and \<open>Matches\<close> returns false on it for a
  desired rule with another description: the comparison of the descriptions fails first.
\<close>

theorem Matches_nil_field_counterexample:
  "rsEtherType exampleNilRule = None \<and> Matches dnsRule exampleNilRule = Some False"
  by (simp add: exampleNilRule_def example_defs Matches_def eqDeref_def)

theorem Matches_partial_but_safe_witness:
  "Matches (sshRule ''other'') exampleNilRule = None \<and>
   getSecurityGroupByName mockClient ''worker'' ([exampleGroup ''g1'' ''worker''], []) =
     ((\<lparr>gsID = ''g1'', gsName = ''worker'', gsRules = [observedRule ''rule-dns'' dnsRule]\<rparr>, None),
      ([exampleGroup ''g1'' ''worker''], [ListSecGroupCall ''worker''])) \<and>
   pointersSet (observedRule ''rule-dns'' dnsRule) \<and>
   fst (reconcileGroupRules mockClient exampleDesired
         \<lparr>gsID = ''g1'', gsName = ''worker'', gsRules = [observedRule ''rule-dns'' dnsRule]\<rparr>
         ([exampleGroup ''g1'' ''worker''], [])) \<noteq> None"
proof -
  have a: "getSecurityGroupByName mockClient ''worker'' ([exampleGroup ''g1'' ''worker''], []) =
     ((\<lparr>gsID = ''g1'', gsName = ''worker'', gsRules = [observedRule ''rule-dns'' dnsRule]\<rparr>, None),
      ([exampleGroup ''g1'' ''worker''], [ListSecGroupCall ''worker'']))"
    by (simp add: getSecurityGroupByName_def doListSecGroup_def sumError_def mockClient_def
        exampleGroup_def convertOSSecGroupToConfigSecGroup_def mockRule_def ruleCreateOpts_def
        example_defs convertOSSecGroupRuleToConfigSecGroupRule_def)
  have b: "rsDescription exampleNilRule = Some (Description (sshRule ''other'')) \<and>
           Direction (sshRule ''other'') = rsDirection exampleNilRule \<and> rsEtherType exampleNilRule = None"
    by (simp add: exampleNilRule_def example_defs)
  from Matches_partial_but_safe [of "sshRule ''other''" exampleNilRule _ mockClient "''worker''"
      "([exampleGroup ''g1'' ''worker''], [])" _ None _ mockClient exampleDesired
      "([exampleGroup ''g1'' ''worker''], [])"] a b
  show ?thesis by simp
qed

subsection \<open>The all-nodes rules\<close>


lemma validateGroupNames_None:
  "validateGroupNames table grps = None \<longleftrightarrow> (\<forall>grp\<in>set grps. table grp \<noteq> None)"
  by (induction grps) auto

lemma validateGroupNames_Errorf:
  "validateGroupNames table grps = Some err \<Longrightarrow> \<exists>msg. err = Errorf msg"
  by (induction grps) (auto split: if_splits)

lemma validateRemoteManagedGroups_None:
  "validateRemoteManagedGroups table grps = None \<longleftrightarrow> grps \<noteq> [] \<and> (\<forall>grp\<in>set grps. table grp \<noteq> None)"
  by (simp add: validateRemoteManagedGroups_def validateGroupNames_None)

lemma validateRemoteManagedGroups_Errorf:
  "validateRemoteManagedGroups table grps = Some err \<Longrightarrow> \<exists>msg. err = Errorf msg"
  by (auto simp: validateRemoteManagedGroups_def split: if_splits dest: validateGroupNames_Errorf)

lemma allNodesRulesLoop_accepted:
  "\<forall>t\<in>set ts. templateAccepted table t \<Longrightarrow>
   allNodesRulesLoop table ts acc = (acc @ concat (map (expandTemplate table) ts), None)"
proof (induction ts arbitrary: acc)
  case Nil
  then show ?case by simp
next
  case (Cons t ts)
  from Cons.prems have t: "templateAccepted table t" and ts: "\<forall>t\<in>set ts. templateAccepted table t"
    by auto
  from t have v: "validateRemoteManagedGroups table (tRemoteManagedGroups t) = None"
    by (simp add: validateRemoteManagedGroups_None templateAccepted_def)
  from t v Cons.IH [OF ts] show ?case
    by (simp add: templateAccepted_def expandTemplate_def)
qed

lemma allNodesRulesLoop_rejected:
  "\<exists>t\<in>set ts. \<not> templateAccepted table t \<Longrightarrow>
   \<exists>msg. allNodesRulesLoop table ts acc = ([], Some (Errorf msg))"
proof (induction ts arbitrary: acc)
  case Nil
  then show ?case by simp
next
  case (Cons t ts)
  show ?case
  proof (cases "templateAccepted table t")
    case True
    with Cons.prems have "\<exists>t\<in>set ts. \<not> templateAccepted table t" by auto
    from Cons.IH [OF this] True show ?thesis
      by (simp add: templateAccepted_def validateRemoteManagedGroups_None [THEN iffD2])
  next
    case False
    show ?thesis
    proof (cases "validateRemoteManagedGroups table (tRemoteManagedGroups t)")
      case (Some err)
      with validateRemoteManagedGroups_Errorf [OF Some] show ?thesis by auto
    next
      case None
      with False have "tRemoteManagedGroups t \<noteq> []" "tRemoteGroupID t \<noteq> None"
        by (auto simp: validateRemoteManagedGroups_None templateAccepted_def)
      with None show ?thesis by auto
    qed
  qed
qed

lemma getAllNodesRules_cases:
  "(if \<forall>t\<in>set ts. templateAccepted table t
    then getAllNodesRules table ts = (concat (map (expandTemplate table) ts), None)
    else \<exists>msg. getAllNodesRules table ts = ([], Some (Errorf msg)))"
  using allNodesRulesLoop_accepted [of ts table "[]"] allNodesRulesLoop_rejected [of ts table "[]"]
  by (auto simp: getAllNodesRules_def)




lemmas generator_defs =
  generateDesiredSecGroups_def getAllNodesRules_def validateRemoteManagedGroups_def
  getSecurityGroupByName_def doListSecGroup_def sumError_def convertOSSecGroupToConfigSecGroup_def
  templateRule_def lookupOrEmpty_def noGroupIDs_def bastionIsEnabled_def nameOf_def
  controlPlaneRulesBefore_def workerRulesBefore_def
  controlPlaneSuffix_def workerSuffix_def bastionSuffix_def

lemmas generator_example_defs =
  etcdTemplate_def etcdRule_def exampleTable_def exampleBuilders_def exampleManaged_def
  exampleCluster_def exampleNames_def exampleProvider_def exampleIDs_def mockClient_def

lemma example_lookup:
  "lookupGroupIDs mockClient exampleNames noGroupIDs (exampleProvider, []) =
     ((exampleIDs, None), (exampleProvider, [ListSecGroupCall ''n-cp'', ListSecGroupCall ''n-w'']))"
  by (simp add: generator_defs generator_example_defs)




lemma example_unresolved:
  "generateDesiredSecGroups exampleBuilders mockClient
     (exampleCluster [etcdTemplate None [controlPlaneSuffix, bastionSuffix]]) exampleNames (exampleProvider, []) =
   ((Map.empty, Some (Errorf ''remoteManagedGroups: bastion is not a valid remote managed security group'')),
    (exampleProvider, [ListSecGroupCall ''n-cp'', ListSecGroupCall ''n-w'']))"
  by (simp add: generator_defs generator_example_defs example_defs)




subsection \<open>Unresolved roles\<close>


lemma getSecurityGroupByName_log:
  "getSecurityGroupByName c name w = (r, w1) \<Longrightarrow> snd w1 = snd w @ [ListSecGroupCall name]"
  by (auto simp: getSecurityGroupByName_def doListSecGroup_def split: prod.splits sum.splits list.splits)

lemma lookupGroupIDs_log:
  "lookupGroupIDs c names ids0 w = (r, w1) \<Longrightarrow> \<exists>called. snd w1 = snd w @ map ListSecGroupCall called"
proof (induction names arbitrary: ids0 w)
  case Nil
  then show ?case by (auto intro: exI [of _ "[]"])
next
  case (Cons p names)
  obtain i v where p: "p = (i, v)" by (cases p)
  obtain secGroup e w2 where g: "getSecurityGroupByName c v w = ((secGroup, e), w2)"
    by (metis prod.exhaust)
  note log = getSecurityGroupByName_log [OF g]
  show ?case
  proof (cases e)
    case (Some err)
    with Cons.prems p g log show ?thesis by (auto intro: exI [of _ "[v]"])
  next
    case None
    with Cons.prems p g obtain ids1 where "lookupGroupIDs c names ids1 w2 = (r, w1)" by auto
    from Cons.IH [OF this] obtain called where "snd w1 = snd w2 @ map ListSecGroupCall called" by blast
    with log show ?thesis by (auto intro: exI [of _ "v # called"])
  qed
qed

lemma lookupGroupIDs_table:
  "lookupGroupIDs c names ids0 w = ((ids, None), w1) \<Longrightarrow> grp \<notin> fst ` set names \<Longrightarrow>
   remoteManagedGroups ids grp = remoteManagedGroups ids0 grp"
proof (induction names arbitrary: ids0 w)
  case Nil
  then show ?case by simp
next
  case (Cons p names)
  obtain i v where p: "p = (i, v)" by (cases p)
  obtain secGroup e w2 where g: "getSecurityGroupByName c v w = ((secGroup, e), w2)"
    by (metis prod.exhaust)
  from Cons.prems(2) p have ne: "grp \<noteq> i" and rest: "grp \<notin> fst ` set names" by auto
  from Cons.prems(1) p g have e: "e = None" by (cases e) auto
  with Cons.prems(1) p g obtain ids1 where
    step: "lookupGroupIDs c names ids1 w2 = ((ids, None), w1)"
    and ids1: "remoteManagedGroups ids1 grp = remoteManagedGroups ids0 grp"
    using ne by (auto split: if_splits)
  from Cons.IH [OF step rest] ids1 show ?case by simp
qed

lemma generate_log:
  "generateDesiredSecGroups b c spec names w = (r, w2) \<Longrightarrow>
   \<exists>called. snd w2 = snd w @ map ListSecGroupCall called"
proof (cases "specManagedSecurityGroups spec")
  case None
  assume "generateDesiredSecGroups b c spec names w = (r, w2)"
  with None show ?thesis by (auto simp: generateDesiredSecGroups_def intro: exI [of _ "[]"])
next
  case (Some managed)
  assume g: "generateDesiredSecGroups b c spec names w = (r, w2)"
  obtain r1 w1 where lk: "lookupGroupIDs c names noGroupIDs w = (r1, w1)" by (metis prod.exhaust)
  with g Some have "w2 = w1"
    by (auto simp: generateDesiredSecGroups_def Let_def split: prod.splits option.splits)
  with lookupGroupIDs_log [OF lk] show ?thesis by simp
qed

lemma generate_error:
  "generateDesiredSecGroups b c spec names w = ((groups, Some err), w2) \<Longrightarrow> groups = Map.empty"
  by (auto simp: generateDesiredSecGroups_def Let_def split: prod.splits option.splits)

lemma generate_unresolved:
  assumes "specManagedSecurityGroups spec = Some managed"
    and "lookupGroupIDs c names noGroupIDs w = ((ids, None), w1)"
    and "t \<in> set (AllNodesSecurityGroupRules managed)"
    and "grp \<in> set (tRemoteManagedGroups t)"
    and "remoteManagedGroups ids grp = None"
  shows "\<exists>msg. generateDesiredSecGroups b c spec names w = ((Map.empty, Some (Errorf msg)), w1)"
proof -
  from assms(3-5) have "\<not> (\<forall>t\<in>set (AllNodesSecurityGroupRules managed). templateAccepted (remoteManagedGroups ids) t)"
    by (auto simp: templateAccepted_def)
  with getAllNodesRules_cases [of "AllNodesSecurityGroupRules managed" "remoteManagedGroups ids"]
  obtain msg where "getAllNodesRules (remoteManagedGroups ids) (AllNodesSecurityGroupRules managed) = ([], Some (Errorf msg))"
    by auto
  with assms(1,2) show ?thesis
    by (simp add: generateDesiredSecGroups_def)
qed

text \<open>
  C4. When the groups have been looked up and a template of the all-nodes rules names a
  role that is not in the resulting table, \<open>generateDesiredSecGroups\<close> returns an error
  made by \<open>fmt.Errorf\<close> together with an empty map of groups, so no rule list is handed
  on. A role whose group is not among the names looked up (the bastion, when it is
  disabled) is not in the table. Whatever it returns, the generator issues only
  \<open>ListSecGroup\<close> calls, none of them mutating, and a failed generation returns no group.
\<close>

theorem unresolved_role_fails_generation:
  "(specManagedSecurityGroups spec = Some managed \<and>
    lookupGroupIDs c names noGroupIDs w = ((ids, None), w1) \<and>
    t \<in> set (AllNodesSecurityGroupRules managed) \<and> grp \<in> set (tRemoteManagedGroups t) \<and>
    remoteManagedGroups ids grp = None \<longrightarrow>
      (\<exists>msg. generateDesiredSecGroups b c spec names w = ((Map.empty, Some (Errorf msg)), w1))) \<and>
   (lookupGroupIDs c names noGroupIDs w = ((ids, None), w1) \<and> grp \<notin> fst ` set names \<longrightarrow>
      remoteManagedGroups ids grp = None) \<and>
   (generateDesiredSecGroups b c spec names w = ((groups, err), w2) \<longrightarrow>
      (\<exists>called. snd w2 = snd w @ map ListSecGroupCall called \<and>
                (\<forall>x\<in>set (map ListSecGroupCall called). \<not> isMutating x)) \<and>
      (err \<noteq> None \<longrightarrow> groups = Map.empty))"
proof (intro conjI impI)
  assume "specManagedSecurityGroups spec = Some managed \<and>
    lookupGroupIDs c names noGroupIDs w = ((ids, None), w1) \<and>
    t \<in> set (AllNodesSecurityGroupRules managed) \<and> grp \<in> set (tRemoteManagedGroups t) \<and>
    remoteManagedGroups ids grp = None"
  then show "\<exists>msg. generateDesiredSecGroups b c spec names w = ((Map.empty, Some (Errorf msg)), w1)"
    using generate_unresolved by blast
next
  assume "lookupGroupIDs c names noGroupIDs w = ((ids, None), w1) \<and> grp \<notin> fst ` set names"
  then show "remoteManagedGroups ids grp = None"
    using lookupGroupIDs_table [of c names noGroupIDs w ids w1 grp] by (simp add: noGroupIDs_def)
next
  assume g: "generateDesiredSecGroups b c spec names w = ((groups, err), w2)"
  from generate_log [OF g] obtain called where "snd w2 = snd w @ map ListSecGroupCall called" by blast
  then show "\<exists>called. snd w2 = snd w @ map ListSecGroupCall called \<and>
                (\<forall>x\<in>set (map ListSecGroupCall called). \<not> isMutating x)"
    by (intro exI [of _ called]) (auto simp: isMutating_def)
  assume "err \<noteq> None"
  then obtain e where "err = Some e" by (cases err) auto
  with g show "groups = Map.empty" by (auto dest: generate_error)
qed

theorem unresolved_role_fails_generation_witness:
  "specManagedSecurityGroups (exampleCluster [etcdTemplate None [controlPlaneSuffix, bastionSuffix]]) =
     Some (exampleManaged [etcdTemplate None [controlPlaneSuffix, bastionSuffix]]) \<and>
   lookupGroupIDs mockClient exampleNames noGroupIDs (exampleProvider, []) =
     ((exampleIDs, None), (exampleProvider, [ListSecGroupCall ''n-cp'', ListSecGroupCall ''n-w''])) \<and>
   bastionSuffix \<notin> fst ` set exampleNames \<and>
   remoteManagedGroups exampleIDs bastionSuffix = None \<and>
   generateDesiredSecGroups exampleBuilders mockClient
     (exampleCluster [etcdTemplate None [controlPlaneSuffix, bastionSuffix]]) exampleNames (exampleProvider, []) =
   ((Map.empty, Some (Errorf ''remoteManagedGroups: bastion is not a valid remote managed security group'')),
    (exampleProvider, [ListSecGroupCall ''n-cp'', ListSecGroupCall ''n-w'']))"
proof -
  let ?t = "etcdTemplate None [controlPlaneSuffix, bastionSuffix]"
  note inst = unresolved_role_fails_generation [of "exampleCluster [?t]" "exampleManaged [?t]" mockClient
      exampleNames "(exampleProvider, [])" exampleIDs
      "(exampleProvider, [ListSecGroupCall ''n-cp'', ListSecGroupCall ''n-w''])" ?t bastionSuffix
      exampleBuilders]
  have a: "specManagedSecurityGroups (exampleCluster [?t]) = Some (exampleManaged [?t])"
    by (simp add: exampleCluster_def)
  have b: "bastionSuffix \<notin> fst ` set exampleNames"
    by (simp add: exampleNames_def generator_defs)
  from inst [THEN conjunct2, THEN conjunct1] example_lookup b
  have c: "remoteManagedGroups exampleIDs bastionSuffix = None" by simp
  have d: "?t \<in> set (AllNodesSecurityGroupRules (exampleManaged [?t])) \<and>
           bastionSuffix \<in> set (tRemoteManagedGroups ?t)"
    by (simp add: exampleManaged_def etcdTemplate_def)
  from inst [THEN conjunct1] a example_lookup c d
  obtain msg where "generateDesiredSecGroups exampleBuilders mockClient (exampleCluster [?t]) exampleNames
      (exampleProvider, []) = ((Map.empty, Some (Errorf msg)),
      (exampleProvider, [ListSecGroupCall ''n-cp'', ListSecGroupCall ''n-w'']))"
    by blast
  with example_unresolved a example_lookup b c show ?thesis by simp
qed

end
